theory Spec2Isabelle
  imports Complex_Main "HOL-Library.Word"
begin

section \<open>Knot vectors and knot insertion of nurbstk/knots.h\<close>

text \<open>
  The header \<^verbatim>\<open>src/nurbstk/knots.h\<close> builds, clamps and validates knot vectors and inserts
  knots into curves and surfaces. This theory embeds its functions and settles the
  properties C1 to C10 on the embedding.

  Conventions of the embedding.
  \<^item> Integers have the widths of the LP64 data model: \<^verbatim>\<open>unsigned int\<close> and \<^verbatim>\<open>int\<close> are 32
    bits, \<^verbatim>\<open>size_t\<close> is 64 bits. An \<^verbatim>\<open>unsigned int\<close> is a \<open>32 word\<close>, a \<^verbatim>\<open>size_t\<close> a
    \<open>64 word\<close> (or a natural number reduced modulo \<open>2 ^ 64\<close>); unsigned arithmetic wraps.
    A conversion from a wider unsigned value to \<^verbatim>\<open>int\<close> keeps the low 32 bits (\<open>ucast\<close>) and
    reads them in two's complement (\<open>sint\<close>). A loop counter of type \<^verbatim>\<open>int\<close> that would be
    incremented past \<open>2 ^ 31 - 1\<close> stops the model with \<open>IntOverflow\<close>.
  \<^item> A \<^verbatim>\<open>std::vector\<close> is a list. A read or write at an index outside the vector stops
    the model with \<open>OutOfRange\<close>.
  \<^item> The scalar type \<^verbatim>\<open>T\<close> is modelled by the reals together with a rounding function
    \<open>rnd\<close> applied to the result of every arithmetic operation: \<open>rnd = (\<lambda>x. x)\<close> is exact
    arithmetic, \<open>rnd = rnd64\<close> is IEEE binary64 (\<^verbatim>\<open>double\<close>) with round-to-nearest-even.
    A division by zero (an infinity or a NaN in IEEE arithmetic) stops the model with
    \<open>NonFinite\<close>.
  \<^item> A function that mutates a container through a reference takes the container and
    returns its new value.
\<close>

datatype fault = OutOfRange | IntOverflow | LengthError | NonFinite

subsection \<open>Container access\<close>

definition vget :: "'a list \<Rightarrow> nat \<Rightarrow> fault + 'a" where
  "vget xs i = (if i < length xs then Inr (xs ! i) else Inl OutOfRange)"

text \<open>Indexing with an \<^verbatim>\<open>int\<close>: a negative index converts to a huge \<^verbatim>\<open>size_t\<close>.\<close>

definition vget_int :: "'a list \<Rightarrow> int \<Rightarrow> fault + 'a" where
  "vget_int xs i = (if 0 \<le> i \<and> nat i < length xs then Inr (xs ! nat i) else Inl OutOfRange)"

text \<open>The value of a \<^verbatim>\<open>size_t\<close> expression: arithmetic modulo \<open>2 ^ 64\<close>.\<close>

definition size_t_val :: "int \<Rightarrow> nat" where
  "size_t_val x = nat (x mod 2 ^ 64)"

text \<open>
  \<^verbatim>\<open>v.insert(pos, x)\<close> with a position given as an index: \<open>x\<close> is placed before the element
  at index \<open>pos\<close> and becomes the element at index \<open>pos\<close>, as the insert of the standard
  sequence containers does.
\<close>

definition insert_at :: "nat \<Rightarrow> 'a \<Rightarrow> 'a list \<Rightarrow> 'a list" where
  "insert_at pos x xs = take pos xs @ x # drop pos xs"

subsection \<open>Scalar arithmetic\<close>

text \<open>
  Rounding to binary64. \<open>ulp_search\<close> finds the power of two \<open>u\<close> with
  \<open>2 ^ 52 * u \<le> x < 2 ^ 53 * u\<close> (the spacing of the doubles around \<open>x\<close>); its fuel covers
  the exponent range of binary64. \<open>rnd64\<close> rounds the quotient \<open>x / u\<close> to the nearest
  integer, ties to even. Subnormal numbers and overflow to infinity are not modelled.
\<close>

fun ulp_search :: "nat \<Rightarrow> real \<Rightarrow> real \<Rightarrow> real" where
  "ulp_search fuel x u =
     (if fuel = 0 then u
      else if 2 ^ 53 * u \<le> x then ulp_search (fuel - 1) x (2 * u)
      else if x < 2 ^ 52 * u then ulp_search (fuel - 1) x (u / 2)
      else u)"

declare ulp_search.simps [simp del]

definition round_half_even :: "real \<Rightarrow> int" where
  "round_half_even x =
     (let f = \<lfloor>x\<rfloor>; r = x - of_int f
      in if r < 1 / 2 then f else if 1 / 2 < r then f + 1 else if even f then f else f + 1)"

definition rnd64 :: "real \<Rightarrow> real" where
  "rnd64 x =
     (if x = 0 then 0
      else let u = ulp_search 2200 \<bar>x\<bar> 1
           in sgn x * of_int (round_half_even (\<bar>x\<bar> / u)) * u)"

text \<open>The machine epsilon of binary64, \<^verbatim>\<open>std::numeric_limits<double>::epsilon()\<close>.\<close>

definition eps64 :: real where
  "eps64 = 1 / 2 ^ 52"

text \<open>
  A rounding function is \<^emph>\<open>faithful\<close> when it keeps 0 and its relative error on the
  normal range of binary64 is at most \<open>2 ^ -53\<close>, the bound of round-to-nearest. Exact
  arithmetic is faithful, and so is \<open>rnd64\<close>.
\<close>

definition normal64 :: "real \<Rightarrow> bool" where
  "normal64 x \<longleftrightarrow> 1 / 2 ^ 1022 \<le> \<bar>x\<bar> \<and> \<bar>x\<bar> \<le> 2 ^ 1023"

definition faithful :: "(real \<Rightarrow> real) \<Rightarrow> bool" where
  "faithful rnd \<longleftrightarrow> rnd 0 = 0 \<and> (\<forall>x. normal64 x \<longrightarrow> \<bar>rnd x - x\<bar> \<le> \<bar>x\<bar> / 2 ^ 53)"

subsection \<open>Control points\<close>

text \<open>
  A control point \<^verbatim>\<open>glm::vec<T, n>\<close> is the list of its \<open>n\<close> coordinates; \<^verbatim>\<open>tvecn(0.0)\<close> is
  the zero vector. Scaling and addition work coordinate by coordinate.
\<close>

type_synonym vec = "real list"

definition tvecn :: "nat \<Rightarrow> vec" where
  "tvecn n = replicate n 0"

definition smul :: "(real \<Rightarrow> real) \<Rightarrow> real \<Rightarrow> vec \<Rightarrow> vec" where
  "smul rnd a v = map (\<lambda>x. rnd (a * x)) v"

definition vadd :: "(real \<Rightarrow> real) \<Rightarrow> vec \<Rightarrow> vec \<Rightarrow> vec" where
  "vadd rnd v w = map2 (\<lambda>x y. rnd (x + y)) v w"

text \<open>The blend \<^verbatim>\<open>(1 - a) * p + a * q\<close>.\<close>

definition blend :: "(real \<Rightarrow> real) \<Rightarrow> real \<Rightarrow> vec \<Rightarrow> vec \<Rightarrow> vec" where
  "blend rnd a p q = vadd rnd (smul rnd (rnd (1 - a)) p) (smul rnd a q)"

subsection \<open>makeUniformKnotVector\<close>

text \<open>
  \<^verbatim>\<open>for (T u = 0.0; u <= 1.0; u += step) knots.push_back(u);\<close>
  The loop ends when \<open>u\<close> exceeds 1; with a step that is not positive it never does, and
  the value is \<open>None\<close>.
\<close>

partial_function (option) uniform_loop ::
  "(real \<Rightarrow> real) \<Rightarrow> real \<Rightarrow> real \<Rightarrow> real list \<Rightarrow> real list option" where
  "uniform_loop rnd step u knots =
     (if u \<le> 1 then uniform_loop rnd step (rnd (u + step)) (knots @ [u]) else Some knots)"

text \<open>
  The result is \<open>None\<close> when the call does not return, a fault, or the returned flag with
  the knot vector after the call. \<^verbatim>\<open>nKnots - 1\<close> overflows for the least \<^verbatim>\<open>int\<close>;
  \<^verbatim>\<open>1.0 / (nKnots - 1)\<close> divides by zero for \<open>nKnots = 1\<close>; \<^verbatim>\<open>knots.reserve(nKnots)\<close> with a
  negative \<^verbatim>\<open>int\<close> asks for more than \<^verbatim>\<open>max_size()\<close> elements and throws
  \<^verbatim>\<open>std::length_error\<close>.
\<close>

definition makeUniformKnotVector ::
  "(real \<Rightarrow> real) \<Rightarrow> 32 word \<Rightarrow> 64 word \<Rightarrow> real list \<Rightarrow> (fault + bool \<times> real list) option" where
  "makeUniformKnotVector rnd degree nCtrlPts knots =
     (if nCtrlPts < ucast (degree + 1) then Some (Inr (False, knots))
      else
        let nKnots = (ucast (nCtrlPts + ucast degree + 1) :: 32 word) in
        if sint nKnots = - (2 ^ 31) then Some (Inl IntOverflow)
        else if sint nKnots = 1 then Some (Inl NonFinite)
        else
          let step = rnd (1 / real_of_int (sint nKnots - 1)) in
          if sint nKnots < 0 then Some (Inl LengthError)
          else map_option (\<lambda>ks. Inr (True, ks)) (uniform_loop rnd step 0 []))"

subsection \<open>makeClampedUniformKnotVector\<close>

text \<open>\<^verbatim>\<open>for (int i = 0; i < degree; i++) knots.push_back(x);\<close>\<close>

function push_loop :: "32 word \<Rightarrow> real \<Rightarrow> nat \<Rightarrow> real list \<Rightarrow> fault + real list" where
  "push_loop degree x i knots =
     (if i < unat degree then
        (if i < 2 ^ 31 - 1 then push_loop degree x (i + 1) (knots @ [x]) else Inl IntOverflow)
      else Inr knots)"
  by pat_completeness auto
termination
  by (relation "measure (\<lambda>(degree, x, i, knots). unat degree - i)") auto

declare push_loop.simps [simp del]

text \<open>
  \<^verbatim>\<open>for (int i = 0; i < nIntKnots; i++) knots.push_back(static_cast<double>(i) * step);\<close>
  The counter stays below the \<^verbatim>\<open>int\<close> \<open>nIntKnots\<close> and cannot overflow.
\<close>

function interior_loop :: "(real \<Rightarrow> real) \<Rightarrow> real \<Rightarrow> int \<Rightarrow> nat \<Rightarrow> real list \<Rightarrow> real list" where
  "interior_loop rnd step nIntKnots i knots =
     (if int i < nIntKnots
      then interior_loop rnd step nIntKnots (i + 1) (knots @ [rnd (real i * step)])
      else knots)"
  by pat_completeness auto
termination
  by (relation "measure (\<lambda>(rnd, step, nIntKnots, i, knots). nat (nIntKnots - int i))") auto

declare interior_loop.simps [simp del]

definition makeClampedUniformKnotVector ::
  "(real \<Rightarrow> real) \<Rightarrow> 32 word \<Rightarrow> 64 word \<Rightarrow> real list \<Rightarrow> fault + bool \<times> real list" where
  "makeClampedUniformKnotVector rnd degree nCtrlPts knots =
     (if nCtrlPts < ucast (degree + 1) then Inr (False, knots)
      else
        let nKnots = (ucast (nCtrlPts + ucast degree + 1) :: 32 word);
            nIntKnots = sint (nKnots - 2 * degree)
        in
        if sint nKnots < 0 then Inl LengthError
        else
          (case push_loop degree 0 0 [] of
             Inl f \<Rightarrow> Inl f
           | Inr left \<Rightarrow>
               if 0 < nIntKnots \<and> nIntKnots - 1 = 0 then Inl NonFinite
               else
                 let interior =
                       (if 0 < nIntKnots
                        then interior_loop rnd (rnd (1 / real_of_int (nIntKnots - 1))) nIntKnots 0 left
                        else left)
                 in (case push_loop degree 1 0 interior of
                       Inl f \<Rightarrow> Inl f
                     | Inr ks \<Rightarrow> Inr (True, ks))))"

subsection \<open>clampKnotVectorLeft\<close>

text \<open>\<^verbatim>\<open>for (int i = 0; i < degree; i++) knots[i] = start;\<close>\<close>

function clampLeft_loop :: "32 word \<Rightarrow> 'a \<Rightarrow> nat \<Rightarrow> 'a list \<Rightarrow> fault + 'a list" where
  "clampLeft_loop degree start i knots =
     (if i < unat degree then
        (if i < length knots then
           (if i < 2 ^ 31 - 1 then clampLeft_loop degree start (i + 1) (knots[i := start])
            else Inl IntOverflow)
         else Inl OutOfRange)
      else Inr knots)"
  by pat_completeness auto
termination
  by (relation "measure (\<lambda>(degree, start, i, knots). unat degree - i)") auto

declare clampLeft_loop.simps [simp del]

definition clampKnotVectorLeft :: "32 word \<Rightarrow> 'a list \<Rightarrow> fault + 'a list" where
  "clampKnotVectorLeft degree knots =
     (case vget knots (unat degree) of
        Inl f \<Rightarrow> Inl f
      | Inr start \<Rightarrow> clampLeft_loop degree start 0 knots)"

subsection \<open>isKnotVectorMonotonic\<close>

text \<open>\<^verbatim>\<open>std::is_sorted\<close>: no element is less than its predecessor.\<close>

fun isKnotVectorMonotonic :: "real list \<Rightarrow> bool" where
  "isKnotVectorMonotonic [] = True"
| "isKnotVectorMonotonic [x] = True"
| "isKnotVectorMonotonic (x # y # ys) = (\<not> y < x \<and> isKnotVectorMonotonic (y # ys))"

subsection \<open>isKnotVectorClosed\<close>

text \<open>
  \<^verbatim>\<open>for (int i = 0; i < degree + 2; i++)\<close>
  \<^verbatim>\<open>  if (std::abs(knots[i] - knots[knots.size() - degree - 2 + i]) > eps) return false;\<close>
  The bound \<^verbatim>\<open>degree + 2\<close> is an \<^verbatim>\<open>unsigned int\<close>; the second index is a \<^verbatim>\<open>size_t\<close>.
\<close>

function closed_loop ::
  "(real \<Rightarrow> real) \<Rightarrow> real \<Rightarrow> 32 word \<Rightarrow> real list \<Rightarrow> nat \<Rightarrow> fault + bool" where
  "closed_loop rnd eps degree knots i =
     (if i < unat (degree + 2) then
        (case vget knots i of
           Inl f \<Rightarrow> Inl f
         | Inr a \<Rightarrow>
             (case vget knots (size_t_val (int (length knots) - int (unat degree) - 2 + int i)) of
                Inl f \<Rightarrow> Inl f
              | Inr b \<Rightarrow>
                  if eps < \<bar>rnd (a - b)\<bar> then Inr False
                  else if i < 2 ^ 31 - 1 then closed_loop rnd eps degree knots (i + 1)
                  else Inl IntOverflow))
      else Inr True)"
  by pat_completeness auto
termination
  by (relation "measure (\<lambda>(rnd, eps, degree, knots, i). unat (degree + 2) - i)") auto

declare closed_loop.simps [simp del]

definition isKnotVectorClosed ::
  "(real \<Rightarrow> real) \<Rightarrow> real \<Rightarrow> 32 word \<Rightarrow> real list \<Rightarrow> fault + bool" where
  "isKnotVectorClosed rnd eps degree knots = closed_loop rnd eps degree knots 0"

subsection \<open>The span finder\<close>

text \<open>
  Modelled from the spec: \<^verbatim>\<open>findSpan\<close> is called by the insertion functions but is not
  defined in \<^verbatim>\<open>knots.h\<close>. The specification (4.4, step 1) describes its result: "Locate
  span, the index such that knots[span] <= u < knots[span+1] (span-finder primitive; must
  handle u exactly equal to the last interior knot as a special case, clamping to the last
  valid span rather than overflowing)". \<open>findSpan_spec u deg knots sp\<close> says that
  \<open>sp\<close> is such an index; the special case is the end of the domain,
  \<open>u = knots[size - deg - 1]\<close>, with the last span \<open>size - deg - 2\<close>. The insertion
  functions below take the value returned by \<^verbatim>\<open>findSpan(u, deg, knots)\<close> as their argument
  \<open>sp\<close> (the source's variable \<^verbatim>\<open>span\<close>).
\<close>

definition findSpan_spec :: "real \<Rightarrow> 32 word \<Rightarrow> real list \<Rightarrow> int \<Rightarrow> bool" where
  "findSpan_spec u deg knots sp \<longleftrightarrow>
     0 \<le> sp \<and> nat sp + 1 < length knots \<and>
     (knots ! nat sp \<le> u \<and> u < knots ! (nat sp + 1) \<or>
      unat deg + 2 \<le> length knots \<and> u = knots ! (length knots - unat deg - 1) \<and>
      nat sp = length knots - unat deg - 2)"

subsection \<open>curveInsertKnot\<close>

text \<open>
  \<^verbatim>\<open>for (int i = span - deg + 1; i <= span; ++i) {\<close>
  \<^verbatim>\<open>  T a = (u - knots[i]) / (knots[i + deg] - knots[i]);\<close>
  \<^verbatim>\<open>  cp[i] = (1 - a) * cp[i - 1] + a * cp[i]; }\<close>
  The loop runs on the knot vector and the control points after the two insertions and
  overwrites \<open>cp\<close> in place, in increasing \<open>i\<close>. The index \<^verbatim>\<open>i + deg\<close> is computed in
  \<^verbatim>\<open>unsigned int\<close>.
\<close>

function curve_loop ::
  "(real \<Rightarrow> real) \<Rightarrow> real \<Rightarrow> 32 word \<Rightarrow> real list \<Rightarrow> int \<Rightarrow> int \<Rightarrow> vec list \<Rightarrow> fault + vec list"
  where
  "curve_loop rnd u deg knots sp i cp =
     (if i \<le> sp then
        (case vget_int knots i of
           Inl f \<Rightarrow> Inl f
         | Inr ki \<Rightarrow>
             (case vget knots (unat (word_of_int i + deg)) of
                Inl f \<Rightarrow> Inl f
              | Inr kid \<Rightarrow>
                  if rnd (kid - ki) = 0 then Inl NonFinite
                  else
                    let a = rnd (rnd (u - ki) / rnd (kid - ki)) in
                    (case vget_int cp (i - 1) of
                       Inl f \<Rightarrow> Inl f
                     | Inr p \<Rightarrow>
                         (case vget_int cp i of
                            Inl f \<Rightarrow> Inl f
                          | Inr q \<Rightarrow>
                              if i < 2 ^ 31 - 1
                              then curve_loop rnd u deg knots sp (i + 1)
                                     (cp[nat i := blend rnd a p q])
                              else Inl IntOverflow))))
      else Inr cp)"
  by pat_completeness auto
termination
  by (relation "measure (\<lambda>(rnd, u, deg, knots, sp, i, cp). nat (sp + 1 - i))") auto

declare curve_loop.simps [simp del]

text \<open>
  The source declares both containers as vectors of \<^verbatim>\<open>glm::vec<T, n>\<close>; the knots are
  scalars, since \<^verbatim>\<open>u - knots[i]\<close> is assigned to a \<^verbatim>\<open>T\<close>.
  \<open>n\<close> is the dimension of the control points, \<open>sp\<close> the value returned by
  \<^verbatim>\<open>findSpan(u, deg, knots)\<close>. The function has no result and no error path (its return type
  is \<^verbatim>\<open>void\<close>); the embedding returns the two containers after the call. The start of the
  loop, \<^verbatim>\<open>span - deg + 1\<close>, is computed in \<^verbatim>\<open>unsigned int\<close> and converted to \<^verbatim>\<open>int\<close>.
\<close>

definition curveInsertKnot ::
  "(real \<Rightarrow> real) \<Rightarrow> nat \<Rightarrow> int \<Rightarrow> real \<Rightarrow> 32 word \<Rightarrow> real list \<Rightarrow> vec list
   \<Rightarrow> fault + real list \<times> vec list" where
  "curveInsertKnot rnd n sp u deg knots cp =
     (if sp < 0 \<or> int (length knots) < sp then Inl OutOfRange
      else
        let knots' = insert_at (nat sp) u knots in
        if int (length cp) < sp then Inl OutOfRange
        else
          let cp' = insert_at (nat sp) (tvecn n) cp in
          (case curve_loop rnd u deg knots' sp (sint (word_of_int sp - deg + 1 :: 32 word)) cp' of
             Inl f \<Rightarrow> Inl f
           | Inr cp'' \<Rightarrow> Inr (knots', cp'')))"

subsection \<open>surfaceInsertKnotU\<close>

text \<open>
  \<^verbatim>\<open>for (int i = 0; i < cp.size(); ++i) cp[i].insert(span, tvecn(0.0));\<close>
  The control points are a list of rows.
\<close>

function insert_rows :: "nat \<Rightarrow> int \<Rightarrow> nat \<Rightarrow> vec list list \<Rightarrow> fault + vec list list" where
  "insert_rows n sp i cp =
     (if i < length cp then
        (if sp < 0 \<or> int (length (cp ! i)) < sp then Inl OutOfRange
         else if i < 2 ^ 31 - 1
         then insert_rows n sp (i + 1) (cp[i := insert_at (nat sp) (tvecn n) (cp ! i)])
         else Inl IntOverflow)
      else Inr cp)"
  by pat_completeness auto
termination
  by (relation "measure (\<lambda>(n, sp, i, cp). length cp - i)") auto

declare insert_rows.simps [simp del]

text \<open>
  The inner loop of row \<open>i\<close>:
  \<^verbatim>\<open>for (int j = span - deg + 1; j <= span; ++j) {\<close>
  \<^verbatim>\<open>  T a = (u - knots[i]) / (knots[i + deg] - knots[j]);\<close>
  \<^verbatim>\<open>  cp[i][j] = (1 - a) * cp[i][j - 1] + a * cp[i][j]; }\<close>
  The coefficient reads \<^verbatim>\<open>knots[i]\<close> and \<^verbatim>\<open>knots[i + deg]\<close> at the row index \<open>i\<close>.
\<close>

function surface_row_loop ::
  "(real \<Rightarrow> real) \<Rightarrow> real \<Rightarrow> 32 word \<Rightarrow> real list \<Rightarrow> int \<Rightarrow> nat \<Rightarrow> int \<Rightarrow> vec list
   \<Rightarrow> fault + vec list" where
  "surface_row_loop rnd u deg knots sp i j row =
     (if j \<le> sp then
        (case vget knots i of
           Inl f \<Rightarrow> Inl f
         | Inr ki \<Rightarrow>
             (case vget knots (unat (word_of_nat i + deg)) of
                Inl f \<Rightarrow> Inl f
              | Inr kid \<Rightarrow>
                  (case vget_int knots j of
                     Inl f \<Rightarrow> Inl f
                   | Inr kj \<Rightarrow>
                       if rnd (kid - kj) = 0 then Inl NonFinite
                       else
                         let a = rnd (rnd (u - ki) / rnd (kid - kj)) in
                         (case vget_int row (j - 1) of
                            Inl f \<Rightarrow> Inl f
                          | Inr p \<Rightarrow>
                              (case vget_int row j of
                                 Inl f \<Rightarrow> Inl f
                               | Inr q \<Rightarrow>
                                   if j < 2 ^ 31 - 1
                                   then surface_row_loop rnd u deg knots sp i (j + 1)
                                          (row[nat j := blend rnd a p q])
                                   else Inl IntOverflow)))))
      else Inr row)"
  by pat_completeness auto
termination
  by (relation "measure (\<lambda>(rnd, u, deg, knots, sp, i, j, row). nat (sp + 1 - j))") auto

declare surface_row_loop.simps [simp del]

text \<open>The outer loop \<^verbatim>\<open>for (int i = 0; i < cp.size(); ++i)\<close> over the rows.\<close>

function surface_rows ::
  "(real \<Rightarrow> real) \<Rightarrow> real \<Rightarrow> 32 word \<Rightarrow> real list \<Rightarrow> int \<Rightarrow> nat \<Rightarrow> vec list list
   \<Rightarrow> fault + vec list list" where
  "surface_rows rnd u deg knots sp i cp =
     (if i < length cp then
        (case surface_row_loop rnd u deg knots sp i
                (sint (word_of_int sp - deg + 1 :: 32 word)) (cp ! i) of
           Inl f \<Rightarrow> Inl f
         | Inr row \<Rightarrow>
             if i < 2 ^ 31 - 1 then surface_rows rnd u deg knots sp (i + 1) (cp[i := row])
             else Inl IntOverflow)
      else Inr cp)"
  by pat_completeness auto
termination
  by (relation "measure (\<lambda>(rnd, u, deg, knots, sp, i, cp). length cp - i)") auto

declare surface_rows.simps [simp del]

definition surfaceInsertKnotU ::
  "(real \<Rightarrow> real) \<Rightarrow> nat \<Rightarrow> int \<Rightarrow> real \<Rightarrow> 32 word \<Rightarrow> real list \<Rightarrow> vec list list
   \<Rightarrow> fault + real list \<times> vec list list" where
  "surfaceInsertKnotU rnd n sp u deg knots cp =
     (if sp < 0 \<or> int (length knots) < sp then Inl OutOfRange
      else
        let knots' = insert_at (nat sp) u knots in
        (case insert_rows n sp 0 cp of
           Inl f \<Rightarrow> Inl f
         | Inr cp' \<Rightarrow>
             (case surface_rows rnd u deg knots' sp 0 cp' of
                Inl f \<Rightarrow> Inl f
              | Inr cp'' \<Rightarrow> Inr (knots', cp''))))"

subsection \<open>Evaluation of a B-spline curve\<close>

text \<open>
  Modelled from the spec: the curve evaluator is not part of \<^verbatim>\<open>knots.h\<close>. The
  specification speaks of "evaluating the curve at a fixed set of sample parameters"
  and of the shape represented by a degree, a knot vector and control points; the
  definition below is the B-spline curve these data denote, the sum of the control
  points weighted by the Cox-de Boor basis functions, in exact arithmetic. A quotient
  with denominator 0 counts as 0, as usual for repeated knots.
\<close>

definition ratio :: "real \<Rightarrow> real \<Rightarrow> real" where
  "ratio a b = (if b = 0 then 0 else a / b)"

fun basis :: "real list \<Rightarrow> nat \<Rightarrow> nat \<Rightarrow> real \<Rightarrow> real" where
  "basis knots p i t =
     (if p = 0 then (if knots ! i \<le> t \<and> t < knots ! (i + 1) then 1 else 0)
      else
        ratio (t - knots ! i) (knots ! (i + p) - knots ! i) * basis knots (p - 1) i t
        + ratio (knots ! (i + p + 1) - t) (knots ! (i + p + 1) - knots ! (i + 1))
            * basis knots (p - 1) (i + 1) t)"

declare basis.simps [simp del]

definition curve_point :: "nat \<Rightarrow> nat \<Rightarrow> real list \<Rightarrow> vec list \<Rightarrow> real \<Rightarrow> vec" where
  "curve_point n deg knots cp t =
     foldl (\<lambda>acc i. vadd (\<lambda>x. x) acc (smul (\<lambda>x. x) (basis knots deg i t) (cp ! i)))
       (tvecn n) [0..<length cp]"

section \<open>Properties\<close>

subsection \<open>clampKnotVectorLeft (C7)\<close>

lemma clampLeft_loop_fills:
  "i \<le> unat degree \<Longrightarrow> unat degree \<le> length knots \<Longrightarrow> unat degree < 2 ^ 31 \<Longrightarrow>
   clampLeft_loop degree start i knots =
     Inr (take i knots @ replicate (unat degree - i) start @ drop (unat degree) knots)"
proof (induction "unat degree - i" arbitrary: i knots)
  case 0
  then have "i = unat degree" by simp
  then show ?case by (simp add: clampLeft_loop.simps)
next
  case (Suc k)
  then have lt: "i < unat degree" and il: "i < length knots" and io: "i < 2 ^ 31 - 1"
    by linarith+
  have k: "k = unat degree - (i + 1)" using Suc.hyps(2) by linarith
  have step: "clampLeft_loop degree start i knots =
      clampLeft_loop degree start (i + 1) (knots[i := start])"
    using lt il io by (subst clampLeft_loop.simps) simp
  have "clampLeft_loop degree start (i + 1) (knots[i := start]) =
      Inr (take (i + 1) (knots[i := start]) @ replicate (unat degree - (i + 1)) start
           @ drop (unat degree) (knots[i := start]))"
    using Suc.hyps(1) [OF k] lt Suc.prems by simp
  also have "take (i + 1) (knots[i := start]) = take i knots @ [start]"
    using il by (simp add: take_Suc_conv_app_nth)
  also have "drop (unat degree) (knots[i := start]) = drop (unat degree) knots"
    using lt by simp
  finally show ?case
    using step lt by (simp add: replicate_app_Cons_same Suc_diff_Suc flip: replicate_Suc)
qed

text \<open>
  With a degree above the largest \<^verbatim>\<open>int\<close> the counter \<^verbatim>\<open>i\<close> reaches \<open>2 ^ 31 - 1\<close> while
  \<^verbatim>\<open>i < degree\<close> still holds, and \<^verbatim>\<open>i++\<close> overflows.
\<close>

lemma clampLeft_loop_overflows:
  "i \<le> 2 ^ 31 - 1 \<Longrightarrow> 2 ^ 31 \<le> unat degree \<Longrightarrow> 2 ^ 31 \<le> length knots \<Longrightarrow>
   clampLeft_loop degree start i knots = Inl IntOverflow"
proof (induction "(2 :: nat) ^ 31 - 1 - i" arbitrary: i knots)
  case 0
  then have "i = 2 ^ 31 - 1" by simp
  with 0 show ?case by (subst clampLeft_loop.simps) simp
next
  case (Suc k)
  then have "i < 2 ^ 31 - 1" by linarith
  moreover have "k = 2 ^ 31 - 1 - (i + 1)" using Suc.hyps(2) by linarith
  ultimately show ?case
    using Suc.hyps(1) [of "i + 1" "knots[i := start]"] Suc.prems
    by (subst clampLeft_loop.simps) simp
qed

text \<open>
  C7, as stated, for every knot vector longer than \<open>2 * degree\<close>: it fails for a degree
  above \<open>2 ^ 31 - 1\<close>. With degree \<open>3 * 2 ^ 30\<close> and a knot vector of \<open>2 * degree + 1\<close>
  knots the loop counter overflows before the loop ends.
\<close>

theorem clampKnotVectorLeft_counterexample:
  "2 * unat (3221225472 :: 32 word) < length (replicate 6442450945 (0 :: real)) \<and>
   clampKnotVectorLeft (3221225472 :: 32 word) (replicate 6442450945 (0 :: real))
     = Inl IntOverflow"
  using clampLeft_loop_overflows
    [of 0 "3221225472 :: 32 word" "replicate 6442450945 (0 :: real)" 0]
  by (simp add: clampKnotVectorLeft_def vget_def)

text \<open>
  C7, amended: for every knot vector of length greater than \<open>2 * degree\<close>, where the
  degree is at most \<open>2 ^ 31 - 1\<close> (the range of the \<^verbatim>\<open>int\<close> loop counter),
  clampKnotVectorLeft returns, the vector keeps its length, the first \<open>degree + 1\<close> values
  are all equal to the old \<open>knots[degree]\<close>, and every entry at an index \<open>\<ge> degree\<close> is
  unchanged.
\<close>

theorem clampKnotVectorLeft_clamps:
  assumes "2 * unat degree < length knots" and "unat degree < 2 ^ 31"
  shows "\<exists>ks. clampKnotVectorLeft degree knots = Inr ks \<and> length ks = length knots \<and>
           (\<forall>i. i \<le> unat degree \<longrightarrow> ks ! i = knots ! unat degree) \<and>
           (\<forall>i. unat degree \<le> i \<and> i < length knots \<longrightarrow> ks ! i = knots ! i)"
proof -
  let ?d = "unat degree"
  let ?ks = "replicate ?d (knots ! ?d) @ drop ?d knots"
  have d: "?d < length knots" using assms(1) by linarith
  have run: "clampKnotVectorLeft degree knots = Inr ?ks"
    using d assms(2) clampLeft_loop_fills [of 0 degree knots "knots ! ?d"]
    by (simp add: clampKnotVectorLeft_def vget_def)
  have len: "length ?ks = length knots" using d by simp
  have lo: "?ks ! i = knots ! ?d" if "i \<le> ?d" for i
    using that d by (cases "i < ?d") (simp_all add: nth_append)
  have hi: "?ks ! i = knots ! i" if "?d \<le> i" "i < length knots" for i
    using that by (simp add: nth_append)
  show ?thesis using run len lo hi by blast
qed

theorem clampKnotVectorLeft_clamps_witness:
  "2 * unat (2 :: 32 word) < length [0, 1, 2, 3, 4, 5, 6 :: real] \<and>
   unat (2 :: 32 word) < 2 ^ 31 \<and>
   (\<exists>ks. clampKnotVectorLeft (2 :: 32 word) [0, 1, 2, 3, 4, 5, 6 :: real] = Inr ks \<and>
      length ks = 7 \<and> ks ! 0 = 2 \<and> ks ! 1 = 2 \<and> ks ! 2 = 2 \<and> ks ! 3 = 3 \<and> ks ! 6 = 6)"
proof -
  have h1: "2 * unat (2 :: 32 word) < length [0, 1, 2, 3, 4, 5, 6 :: real]" by simp
  have h2: "unat (2 :: 32 word) < 2 ^ 31" by simp
  from clampKnotVectorLeft_clamps [OF h1 h2] obtain ks where
    ks: "clampKnotVectorLeft (2 :: 32 word) [0, 1, 2, 3, 4, 5, 6 :: real] = Inr ks"
      "length ks = length [0, 1, 2, 3, 4, 5, 6 :: real]"
      "\<forall>i. i \<le> unat (2 :: 32 word) \<longrightarrow> ks ! i = [0, 1, 2, 3, 4, 5, 6 :: real] ! unat (2 :: 32 word)"
      "\<forall>i. unat (2 :: 32 word) \<le> i \<and> i < length [0, 1, 2, 3, 4, 5, 6 :: real]
         \<longrightarrow> ks ! i = [0, 1, 2, 3, 4, 5, 6 :: real] ! i"
    by blast
  have "ks ! 0 = 2" "ks ! 1 = 2" "ks ! 2 = 2" using ks(3) by simp_all
  moreover have "ks ! 3 = 3" "ks ! 6 = 6" using ks(4) by simp_all
  ultimately show ?thesis using h1 h2 ks(1,2) by simp
qed

subsection \<open>isKnotVectorClosed (C10)\<close>

lemma unat_degree_plus2_le: "unat (degree + 2 :: 32 word) \<le> unat degree + 2"
  by (simp add: unat_word_ariths)

lemma size_t_val_in_range: "0 \<le> x \<Longrightarrow> x < 2 ^ 64 \<Longrightarrow> size_t_val x = nat x"
  by (simp add: size_t_val_def)

lemma size_t_val_wraps: "- (2 ^ 64) \<le> x \<Longrightarrow> x < 0 \<Longrightarrow> size_t_val x = nat (x + 2 ^ 64)"
proof -
  assume a: "- (2 ^ 64) \<le> x" "x < 0"
  have "x mod 2 ^ 64 = (x + 2 ^ 64) mod 2 ^ 64" by simp
  also have "\<dots> = x + 2 ^ 64" using a by (intro mod_pos_pos_trivial) simp_all
  finally show ?thesis by (simp add: size_t_val_def)
qed

text \<open>The index \<^verbatim>\<open>knots.size() - degree - 2 + i\<close> with at least \<open>degree + 2\<close> knots.\<close>

lemma second_index_in_range:
  fixes n d i :: nat
  assumes "i < d + 2" and "d + 2 \<le> n" and "n < 2 ^ 64"
  shows "size_t_val (int n - int d - 2 + int i) < n"
proof -
  have "0 \<le> int n - int d - 2 + int i" "int n - int d - 2 + int i < 2 ^ 64"
    "nat (int n - int d - 2 + int i) < n"
    using assms by simp_all
  then show ?thesis by (simp add: size_t_val_in_range)
qed

text \<open>With fewer knots the subtraction wraps around to an index near \<open>2 ^ 64\<close>.\<close>

lemma second_index_wraps:
  fixes n d :: nat
  assumes "n < d + 2" and "d < 2 ^ 32"
  shows "\<not> size_t_val (int n - int d - 2) < n"
proof -
  have "- (2 ^ 64) \<le> int n - int d - 2" "int n - int d - 2 < 0"
    using assms by simp_all
  then have "size_t_val (int n - int d - 2) = nat (int n - int d - 2 + 2 ^ 64)"
    by (rule size_t_val_wraps)
  moreover have "n \<le> nat (int n - int d - 2 + 2 ^ 64)" using assms by simp
  ultimately show ?thesis by simp
qed

text \<open>
  With at least \<open>degree + 2\<close> knots and \<open>degree + 2\<close> within the range of the \<^verbatim>\<open>int\<close>
  counter, every iteration reads two elements of the vector and the loop ends.
\<close>

lemma closed_loop_returns:
  "length knots < 2 ^ 64 \<Longrightarrow> unat degree + 2 \<le> length knots \<Longrightarrow> unat degree + 2 < 2 ^ 31 \<Longrightarrow>
   \<exists>b. closed_loop rnd eps degree knots i = Inr b"
proof (induction rnd eps degree knots i rule: closed_loop.induct)
  case (1 rnd eps degree knots i)
  show ?case
  proof (cases "i < unat (degree + 2)")
    case False
    then have "closed_loop rnd eps degree knots i = Inr True"
      by (subst closed_loop.simps) simp
    then show ?thesis by blast
  next
    case True
    then have i: "i < unat degree + 2" using unat_degree_plus2_le [of degree] by linarith
    then have il: "i < length knots" using "1.prems" by linarith
    have io: "i < 2 ^ 31 - 1" using i "1.prems"(3) by linarith
    let ?x = "int (length knots) - int (unat degree) - 2 + int i"
    have j: "size_t_val ?x < length knots"
      using i "1.prems"(1,2) by (intro second_index_in_range)
    show ?thesis
    proof (cases "eps < \<bar>rnd (knots ! i - knots ! size_t_val ?x)\<bar>")
      case True
      then have "closed_loop rnd eps degree knots i = Inr False"
        using \<open>i < unat (degree + 2)\<close> il j by (subst closed_loop.simps) (simp add: vget_def)
      then show ?thesis by blast
    next
      case False
      then have "closed_loop rnd eps degree knots i = closed_loop rnd eps degree knots (i + 1)"
        using \<open>i < unat (degree + 2)\<close> il j io
        by (subst closed_loop.simps) (simp add: vget_def)
      moreover have "\<exists>b. closed_loop rnd eps degree knots (i + 1) = Inr b"
        using \<open>i < unat (degree + 2)\<close> il j io False "1.prems"
          "1.IH" [of "knots ! i" "knots ! size_t_val ?x"]
        by (simp add: vget_def)
      ultimately show ?thesis by simp
    qed
  qed
qed

lemma closed_loop_short:
  assumes "length knots < unat degree + 2" and "degree + 2 \<noteq> 0"
  shows "closed_loop rnd eps degree knots 0 = Inl OutOfRange"
proof -
  have pos: "0 < unat (degree + 2)" using assms(2) by (simp add: unat_gt_0)
  let ?x = "int (length knots) - int (unat degree) - 2"
  have "unat degree < 2 ^ LENGTH(32)" by (rule unsigned_less)
  then have d: "unat degree < 2 ^ 32" by simp
  have j: "\<not> size_t_val ?x < length knots"
    using assms(1) d by (rule second_index_wraps)
  show ?thesis
    using pos j by (subst closed_loop.simps) (simp add: vget_def)
qed

text \<open>
  With \<open>degree + 2\<close> above the largest \<^verbatim>\<open>int\<close> and a vector of equal knots no comparison
  ends the loop, and the counter \<^verbatim>\<open>i\<close> overflows.
\<close>

lemma closed_loop_overflows:
  assumes "n < 2 ^ 64" and "unat degree + 2 \<le> n" and "2 ^ 31 \<le> unat (degree + 2)"
    and "rnd 0 = 0" and "0 \<le> eps"
  shows "i \<le> 2 ^ 31 - 1 \<Longrightarrow> closed_loop rnd eps degree (replicate n c) i = Inl IntOverflow"
proof (induction "(2 :: nat) ^ 31 - 1 - i" arbitrary: i)
  case 0
  then have i: "i = 2 ^ 31 - 1" by simp
  have lt: "i < unat (degree + 2)" using i assms(3) by simp
  then have i2: "i < unat degree + 2" using unat_degree_plus2_le [of degree] by linarith
  then have il: "i < n" using assms(2) by linarith
  have j: "size_t_val (int n - int (unat degree) - 2 + int i) < n"
    using i2 assms(1,2) by (intro second_index_in_range)
  show ?case
    using lt il j i assms(4,5) by (subst closed_loop.simps) (simp add: vget_def)
next
  case (Suc k)
  then have io: "i < 2 ^ 31 - 1" by linarith
  have k: "k = 2 ^ 31 - 1 - (i + 1)" using Suc.hyps(2) by linarith
  have lt: "i < unat (degree + 2)" using io assms(3) by linarith
  then have i2: "i < unat degree + 2" using unat_degree_plus2_le [of degree] by linarith
  then have il: "i < n" using assms(2) by linarith
  have j: "size_t_val (int n - int (unat degree) - 2 + int i) < n"
    using i2 assms(1,2) by (intro second_index_in_range)
  have "closed_loop rnd eps degree (replicate n c) (i + 1) = Inl IntOverflow"
    using Suc.hyps(1) [OF k] io by simp
  then show ?case
    using lt il j io assms(4,5) by (subst closed_loop.simps) (simp add: vget_def)
qed

text \<open>
  C10, as stated, fails in two places. (1) It says that for every vector shorter than
  \<open>degree + 2\<close> the function indexes out of range: for \<open>degree = 2 ^ 32 - 2\<close> the loop bound
  \<^verbatim>\<open>degree + 2\<close> is an \<^verbatim>\<open>unsigned int\<close> and wraps to 0, the loop body never runs, and the
  function returns true for the empty vector without reading an element. (2) It says that
  \<open>size \<ge> degree + 2\<close> makes every access safe: for \<open>degree = 2 ^ 31 - 1\<close> and
  \<open>2 ^ 31 + 1\<close> equal knots the \<^verbatim>\<open>int\<close> counter \<^verbatim>\<open>i\<close> is incremented past the largest
  \<^verbatim>\<open>int\<close> while \<^verbatim>\<open>i < degree + 2\<close> still holds.
\<close>

theorem isKnotVectorClosed_counterexample:
  "length ([] :: real list) < unat (4294967294 :: 32 word) + 2 \<and>
   isKnotVectorClosed rnd64 eps64 (4294967294 :: 32 word) [] = Inr True \<and>
   unat (2147483647 :: 32 word) + 2 \<le> length (replicate 2147483649 (0 :: real)) \<and>
   isKnotVectorClosed rnd64 eps64 (2147483647 :: 32 word) (replicate 2147483649 0)
     = Inl IntOverflow"
proof -
  have "isKnotVectorClosed rnd64 eps64 (4294967294 :: 32 word) [] = Inr True"
    by (simp add: isKnotVectorClosed_def closed_loop.simps)
  moreover have "closed_loop rnd64 eps64 (2147483647 :: 32 word) (replicate 2147483649 0) 0
      = Inl IntOverflow"
    by (rule closed_loop_overflows) (simp_all add: rnd64_def eps64_def)
  ultimately show ?thesis by (simp add: isKnotVectorClosed_def)
qed

text \<open>
  C10, amended: isKnotVectorClosed reads the indices \<open>i\<close> and \<open>size - degree - 2 + i\<close> for
  \<open>i\<close> from 0 while \<open>i < degree + 2\<close>, the bound computed in \<^verbatim>\<open>unsigned int\<close> and the
  counter an \<^verbatim>\<open>int\<close>. With at least \<open>degree + 2\<close> knots and \<open>degree + 2 \<le> 2 ^ 31 - 1\<close> (the
  counter cannot overflow) every such access is in bounds and the function returns its
  boolean: no fault branch of the embedding is reachable. With fewer than \<open>degree + 2\<close>
  knots it indexes out of range, except for \<open>degree = 2 ^ 32 - 2\<close>: there \<open>degree + 2\<close>
  wraps to 0, nothing is read and the function returns true. The vector is a
  \<^verbatim>\<open>std::vector\<close>, so its size is below \<open>2 ^ 64\<close>.
\<close>

theorem isKnotVectorClosed_bounds:
  assumes "length knots < 2 ^ 64"
  shows "(unat degree + 2 \<le> length knots \<and> unat degree + 2 < 2 ^ 31
            \<longrightarrow> (\<exists>b. isKnotVectorClosed rnd eps degree knots = Inr b)) \<and>
         (length knots < unat degree + 2 \<and> degree + 2 \<noteq> 0
            \<longrightarrow> isKnotVectorClosed rnd eps degree knots = Inl OutOfRange) \<and>
         (degree + 2 = 0 \<longrightarrow> isKnotVectorClosed rnd eps degree knots = Inr True)"
proof (intro conjI impI)
  assume "unat degree + 2 \<le> length knots \<and> unat degree + 2 < 2 ^ 31"
  then show "\<exists>b. isKnotVectorClosed rnd eps degree knots = Inr b"
    using assms closed_loop_returns [of knots degree rnd eps 0]
    by (simp add: isKnotVectorClosed_def)
next
  assume "length knots < unat degree + 2 \<and> degree + 2 \<noteq> 0"
  then show "isKnotVectorClosed rnd eps degree knots = Inl OutOfRange"
    using closed_loop_short by (simp add: isKnotVectorClosed_def)
next
  assume "degree + 2 = 0"
  then have "closed_loop rnd eps degree knots 0 = Inr True"
    by (subst closed_loop.simps) simp
  then show "isKnotVectorClosed rnd eps degree knots = Inr True"
    by (simp add: isKnotVectorClosed_def)
qed

theorem isKnotVectorClosed_bounds_witness:
  "length [0, 0, 0, 1 / 2, 1, 1, 1 :: real] < 2 ^ 64 \<and>
   unat (2 :: 32 word) + 2 \<le> length [0, 0, 0, 1 / 2, 1, 1, 1 :: real] \<and>
   unat (2 :: 32 word) + 2 < 2 ^ 31 \<and>
   (\<exists>b. isKnotVectorClosed rnd64 eps64 (2 :: 32 word) [0, 0, 0, 1 / 2, 1, 1, 1] = Inr b) \<and>
   length [0, 0 :: real] < 2 ^ 64 \<and>
   length [0, 0 :: real] < unat (2 :: 32 word) + 2 \<and> (2 :: 32 word) + 2 \<noteq> 0 \<and>
   isKnotVectorClosed rnd64 eps64 (2 :: 32 word) [0, 0] = Inl OutOfRange \<and>
   (4294967294 :: 32 word) + 2 = 0 \<and>
   isKnotVectorClosed rnd64 eps64 (4294967294 :: 32 word) [0, 0] = Inr True"
proof -
  have h1: "length [0, 0, 0, 1 / 2, 1, 1, 1 :: real] < 2 ^ 64" by simp
  have h2: "length [0, 0 :: real] < 2 ^ 64" by simp
  have a: "unat (2 :: 32 word) + 2 \<le> length [0, 0, 0, 1 / 2, 1, 1, 1 :: real]
      \<and> unat (2 :: 32 word) + 2 < 2 ^ 31" by simp
  have b: "length [0, 0 :: real] < unat (2 :: 32 word) + 2 \<and> (2 :: 32 word) + 2 \<noteq> 0" by simp
  have c: "(4294967294 :: 32 word) + 2 = 0" by simp
  show ?thesis
    using h1 h2 a b c isKnotVectorClosed_bounds [OF h1, of 2 rnd64 eps64]
      isKnotVectorClosed_bounds [OF h2, of 2 rnd64 eps64]
      isKnotVectorClosed_bounds [OF h2, of 4294967294 rnd64 eps64]
    by blast
qed

subsection \<open>Integer conversions of the builders\<close>

lemma unat_ucast_32_64: "unat (ucast (w :: 32 word) :: 64 word) = unat w"
proof -
  have "unat w < 2 ^ LENGTH(32)" by (rule unsigned_less)
  then have "unat w < 2 ^ 64" by simp
  then show ?thesis by (simp add: unsigned_ucast_eq take_bit_nat_eq_self)
qed

lemma unat_ucast_64_32: "unat (x :: 64 word) < 2 ^ 32 \<Longrightarrow> unat (ucast x :: 32 word) = unat x"
  by (simp add: unsigned_ucast_eq take_bit_nat_eq_self)

lemma sint_small: "unat (w :: 32 word) < 2 ^ 31 \<Longrightarrow> sint w = int (unat w)"
proof -
  assume a: "unat w < 2 ^ 31"
  then have "int (unat w) < int (2 ^ 31)" by (simp only: of_nat_less_iff)
  then have "uint w < 2 ^ 31" by simp
  moreover have "- (2 ^ 31) \<le> uint w"
  proof -
    have "- (2 ^ 31) \<le> (0 :: int)" by simp
    also have "0 \<le> uint w" by simp
    finally show ?thesis .
  qed
  ultimately have "signed_take_bit 31 (uint w) = uint w"
    by (intro signed_take_bit_int_eq_self)
  then show ?thesis by (simp add: sint_uint)
qed

lemma unat_degree_Suc: "unat degree + 1 < 2 ^ 32 \<Longrightarrow> unat (degree + 1 :: 32 word) = unat degree + 1"
  by (simp add: unat_word_ariths)

lemma unat_sum3:
  fixes nCtrlPts :: "64 word" and degree :: "32 word"
  assumes "unat nCtrlPts + unat degree + 1 < 2 ^ 64"
  shows "unat (nCtrlPts + ucast degree + 1) = unat nCtrlPts + unat degree + 1"
  using assms by (simp add: unat_word_ariths unat_ucast_32_64)

text \<open>The guard \<^verbatim>\<open>nCtrlPts < degree + 1\<close> when \<open>degree + 1\<close> does not wrap.\<close>

lemma guard_iff:
  fixes nCtrlPts :: "64 word" and degree :: "32 word"
  assumes "unat degree + 1 < 2 ^ 32"
  shows "nCtrlPts < ucast (degree + 1) \<longleftrightarrow> unat nCtrlPts < unat degree + 1"
  using assms by (simp add: word_less_nat_alt unat_ucast_32_64 unat_degree_Suc)

lemma nKnots_value:
  fixes nCtrlPts :: "64 word" and degree :: "32 word"
  assumes "unat nCtrlPts + unat degree + 1 < 2 ^ 31"
  shows "sint (ucast (nCtrlPts + ucast degree + 1) :: 32 word) = int (unat nCtrlPts + unat degree + 1)"
    and "unat (ucast (nCtrlPts + ucast degree + 1) :: 32 word) = unat nCtrlPts + unat degree + 1"
proof -
  have s: "unat (nCtrlPts + ucast degree + 1) = unat nCtrlPts + unat degree + 1"
    using assms by (intro unat_sum3) simp
  then have "unat (nCtrlPts + ucast degree + 1) < 2 ^ 32" using assms by simp
  then show u: "unat (ucast (nCtrlPts + ucast degree + 1) :: 32 word) = unat nCtrlPts + unat degree + 1"
    using s by (simp add: unat_ucast_64_32)
  then show "sint (ucast (nCtrlPts + ucast degree + 1) :: 32 word) = int (unat nCtrlPts + unat degree + 1)"
    using assms by (simp add: sint_small)
qed

lemma nIntKnots_value:
  fixes nCtrlPts :: "64 word" and degree :: "32 word"
  assumes "unat degree + 1 \<le> unat nCtrlPts" and "unat nCtrlPts + unat degree + 1 < 2 ^ 31"
  shows "sint ((ucast (nCtrlPts + ucast degree + 1) :: 32 word) - 2 * degree)
         = int (unat nCtrlPts + 1 - unat degree)"
proof -
  let ?k = "ucast (nCtrlPts + ucast degree + 1) :: 32 word"
  have k: "unat ?k = unat nCtrlPts + unat degree + 1" using assms(2) by (rule nKnots_value(2))
  have "unat (2 :: 32 word) * unat degree < 2 ^ LENGTH(32)" using assms by simp
  then have d2: "unat (2 * degree) = 2 * unat degree"
    by (simp add: unat_mult_lem [THEN iffD1])
  have "unat (2 * degree) \<le> unat ?k" using k d2 assms by simp
  then have "2 * degree \<le> ?k" by (simp add: word_le_nat_alt)
  then have "unat (?k - 2 * degree) = unat ?k - unat (2 * degree)" by (rule unat_sub)
  then have u: "unat (?k - 2 * degree) = unat nCtrlPts + 1 - unat degree"
    using k d2 assms by simp
  then have "unat (?k - 2 * degree) < 2 ^ 31" using assms by simp
  then show ?thesis using u by (simp add: sint_small)
qed

subsection \<open>The loops of the builders\<close>

lemmas eval_rnd64 = rnd64_def ulp_search.simps round_half_even_def Let_def

lemma push_loop_replicate:
  "i \<le> unat degree \<Longrightarrow> unat degree < 2 ^ 31 \<Longrightarrow>
   push_loop degree x i knots = Inr (knots @ replicate (unat degree - i) x)"
proof (induction "unat degree - i" arbitrary: i knots)
  case 0
  then show ?case by (subst push_loop.simps) simp
next
  case (Suc k)
  then have lt: "i < unat degree" and io: "i < 2 ^ 31 - 1" by linarith+
  have k: "k = unat degree - (i + 1)" using Suc.hyps(2) by linarith
  have "push_loop degree x i knots = push_loop degree x (i + 1) (knots @ [x])"
    using lt io by (subst push_loop.simps) simp
  also have "\<dots> = Inr ((knots @ [x]) @ replicate (unat degree - (i + 1)) x)"
    using Suc.hyps(1) [OF k] lt Suc.prems by simp
  also have "(knots @ [x]) @ replicate (unat degree - (i + 1)) x
      = knots @ replicate (Suc (unat degree - (i + 1))) x"
    by simp
  also have "Suc (unat degree - (i + 1)) = unat degree - i" using lt by linarith
  finally show ?case .
qed

lemma interior_loop_map:
  "interior_loop rnd step nIntKnots i knots
   = knots @ map (\<lambda>j. rnd (real j * step)) [i..<nat nIntKnots]"
proof (induction rnd step nIntKnots i knots rule: interior_loop.induct)
  case (1 rnd step nIntKnots i knots)
  show ?case
  proof (cases "int i < nIntKnots")
    case True
    then have "i < nat nIntKnots" by linarith
    then have "[i..<nat nIntKnots] = i # [i + 1..<nat nIntKnots]"
      by (simp add: upt_conv_Cons)
    then show ?thesis
      using True "1.IH" by (subst interior_loop.simps) simp
  next
    case False
    then have "nat nIntKnots \<le> i" by linarith
    then show ?thesis
      using False by (subst interior_loop.simps) simp
  qed
qed

subsection \<open>makeUniformKnotVector (C4)\<close>

text \<open>
  In exact arithmetic the loop of makeUniformKnotVector pushes the \<open>m + 1\<close> values
  \<open>0, 1 / m, \<dots>, m / m\<close> for the step \<open>1 / m\<close>.
\<close>

lemma uniform_loop_exact:
  "0 < m \<Longrightarrow> k \<le> m + 1 \<Longrightarrow>
   uniform_loop (\<lambda>x. x) (1 / real m) (real k / real m) acc
   = Some (acc @ map (\<lambda>j. real j / real m) [k..<m + 1])"
proof (induction "m + 1 - k" arbitrary: k acc)
  case 0
  then have k: "k = m + 1" by simp
  then have "\<not> real k / real m \<le> 1" using 0 by simp
  then show ?case using k by (subst uniform_loop.simps) simp
next
  case (Suc d)
  then have lt: "k \<le> m" by linarith
  have d: "d = m + 1 - (k + 1)" using Suc.hyps(2) by linarith
  have le: "real k / real m \<le> 1" using lt Suc.prems by simp
  have next_u: "real k / real m + 1 / real m = real (k + 1) / real m"
    by (simp add: add_divide_distrib)
  have "[k..<m + 1] = k # [k + 1..<m + 1]" using lt by (simp add: upt_conv_Cons)
  then show ?case
    using le next_u Suc.hyps(1) [OF d, of "acc @ [real k / real m]"] Suc.prems lt
    by (subst uniform_loop.simps) simp
qed

lemma makeUniformKnotVector_exact:
  assumes "unat degree + 1 \<le> unat nCtrlPts" and "unat nCtrlPts + unat degree + 1 < 2 ^ 31"
  shows "makeUniformKnotVector (\<lambda>x. x) degree nCtrlPts knots
         = Some (Inr (True, map (\<lambda>j. real j / real (unat nCtrlPts + unat degree))
                              [0..<unat nCtrlPts + unat degree + 1]))"
proof -
  let ?k = "ucast (nCtrlPts + ucast degree + 1) :: 32 word"
  define m where "m = unat nCtrlPts + unat degree"
  have g: "\<not> nCtrlPts < ucast (degree + 1)"
    using assms by (subst guard_iff) simp_all
  have s: "sint ?k = int (m + 1)"
    using nKnots_value(1) [OF assms(2)] by (simp only: m_def)
  have m: "0 < m" using assms(1) unfolding m_def by linarith
  have c1: "sint ?k \<noteq> - (2 ^ 31)" and c2: "sint ?k \<noteq> 1" and c3: "\<not> sint ?k < 0"
    unfolding s using m by simp_all
  have step: "1 / real_of_int (sint ?k - 1) = 1 / real m" unfolding s by simp
  have loop: "uniform_loop (\<lambda>x. x) (1 / real m) 0 []
      = Some (map (\<lambda>j. real j / real m) [0..<m + 1])"
    using uniform_loop_exact [OF m, of 0 "[]"] by simp
  have "makeUniformKnotVector (\<lambda>x. x) degree nCtrlPts knots
      = map_option (\<lambda>ks. Inr (True, ks)) (uniform_loop (\<lambda>x. x) (1 / real m) 0 [])"
    by (simp only: makeUniformKnotVector_def Let_def g c1 c2 c3 step if_False)
  also have "\<dots> = Some (Inr (True, map (\<lambda>j. real j / real m) [0..<m + 1]))"
    by (simp only: loop option.map)
  finally show ?thesis unfolding m_def .
qed

text \<open>
  C4 (for every degree and every \<open>nCtrlPts \<ge> degree + 1\<close> the function produces exactly
  \<open>nCtrlPts + degree + 1\<close> knots, the first 0 and the last 1): the code does not do this
  for \<^verbatim>\<open>T = double\<close>. The loop adds the rounded step to \<open>u\<close> again and again and stops
  when \<open>u\<close> exceeds 1. For degree 3 and 6 control points (10 knots, step \<open>1 / 9\<close>) the
  ninth sum is already above 1: the function returns true with 9 knots, the last of them
  about 0.889. Lemma \<open>makeUniformKnotVector_exact\<close> above shows that the claim describes
  what the loop computes in exact arithmetic (for \<open>nCtrlPts + degree + 1 < 2 ^ 31\<close>).
\<close>

theorem makeUniformKnotVector_double_drops_a_knot:
  "unat (3 :: 32 word) + 1 \<le> unat (6 :: 64 word) \<and>
   unat (6 :: 64 word) + unat (3 :: 32 word) + 1 = 10 \<and>
   makeUniformKnotVector rnd64 3 6 []
     = Some (Inr (True,
         [0, 2001599834386887 / 18014398509481984, 2001599834386887 / 9007199254740992,
          6004799503160661 / 18014398509481984, 2001599834386887 / 4503599627370496,
          2501999792983609 / 4503599627370496, 3002399751580331 / 4503599627370496,
          3502799710177053 / 4503599627370496, 4003199668773775 / 4503599627370496])) \<and>
   length [0 :: real, 2001599834386887 / 18014398509481984, 2001599834386887 / 9007199254740992,
          6004799503160661 / 18014398509481984, 2001599834386887 / 4503599627370496,
          2501999792983609 / 4503599627370496, 3002399751580331 / 4503599627370496,
          3502799710177053 / 4503599627370496, 4003199668773775 / 4503599627370496] = 9"
  by (simp add: makeUniformKnotVector_def uniform_loop.simps eval_rnd64)

subsection \<open>makeClampedUniformKnotVector (C5)\<close>

lemma makeClampedUniformKnotVector_value:
  assumes "unat degree + 1 \<le> unat nCtrlPts" and "unat nCtrlPts + unat degree + 1 < 2 ^ 31"
  shows "makeClampedUniformKnotVector rnd degree nCtrlPts knots
         = Inr (True,
             replicate (unat degree) 0
             @ map (\<lambda>j. rnd (real j * rnd (1 / real (unat nCtrlPts - unat degree))))
                 [0..<unat nCtrlPts + 1 - unat degree]
             @ replicate (unat degree) 1)"
proof -
  let ?k = "ucast (nCtrlPts + ucast degree + 1) :: 32 word"
  define d where "d = unat degree"
  define nI where "nI = unat nCtrlPts + 1 - unat degree"
  define step where "step = rnd (1 / real (unat nCtrlPts - unat degree))"
  have g: "\<not> nCtrlPts < ucast (degree + 1)"
    using assms by (subst guard_iff) simp_all
  have "sint ?k = int (unat nCtrlPts + unat degree + 1)"
    using assms(2) by (rule nKnots_value(1))
  then have c1: "\<not> sint ?k < 0" by (simp only: of_nat_less_0_iff not_False_eq_True)
  have n: "sint (?k - 2 * degree) = int nI"
    unfolding nI_def using assms by (rule nIntKnots_value)
  have nI: "2 \<le> nI" unfolding nI_def using assms(1) by linarith
  have c2: "0 < int nI" and c3: "int nI - 1 \<noteq> 0" using nI by simp_all
  have st: "rnd (1 / real_of_int (int nI - 1)) = step"
  proof -
    have "int nI - 1 = int (unat nCtrlPts - unat degree)"
      unfolding nI_def using assms(1) by linarith
    then show ?thesis unfolding step_def by simp
  qed
  have dlt: "unat degree < 2 ^ 31" using assms(2) by linarith
  have left: "push_loop degree 0 0 [] = Inr (replicate d 0)"
    using push_loop_replicate [of 0 degree 0 "[]"] dlt by (simp add: d_def)
  have mid: "interior_loop rnd step (int nI) 0 (replicate d 0)
      = replicate d 0 @ map (\<lambda>j. rnd (real j * step)) [0..<nI]"
    by (simp add: interior_loop_map)
  have right: "push_loop degree 1 0 (replicate d 0 @ map (\<lambda>j. rnd (real j * step)) [0..<nI])
      = Inr ((replicate d 0 @ map (\<lambda>j. rnd (real j * step)) [0..<nI]) @ replicate d 1)"
    using push_loop_replicate [of 0 degree 1] dlt by (simp add: d_def)
  have "makeClampedUniformKnotVector rnd degree nCtrlPts knots
      = Inr (True, (replicate d 0 @ map (\<lambda>j. rnd (real j * step)) [0..<nI]) @ replicate d 1)"
    by (simp only: makeClampedUniformKnotVector_def Let_def g c1 n c2 c3 st left mid right
        if_True if_False sum.case simp_thms)
  then show ?thesis unfolding d_def nI_def step_def by simp
qed

lemma faithful_zero: "faithful rnd \<Longrightarrow> rnd 0 = 0"
  by (simp add: faithful_def)

lemma faithful_exact: "faithful (\<lambda>x. x)"
  by (simp add: faithful_def)

lemma normal64_window: "1 / 2 ^ 32 \<le> x \<Longrightarrow> x \<le> 2 ^ 32 \<Longrightarrow> normal64 x"
proof -
  assume a: "1 / 2 ^ 32 \<le> x" "x \<le> 2 ^ 32"
  have "(1 :: real) / 2 ^ 1022 \<le> 1 / 2 ^ 32" by simp
  moreover have "(2 :: real) ^ 32 \<le> 2 ^ 1023" by simp
  moreover have "0 \<le> x" using a(1) by (meson dual_order.trans zero_le_divide_1_iff zero_le_numeral zero_le_power)
  ultimately show ?thesis using a unfolding normal64_def by linarith
qed

lemma faithful_bounds:
  assumes "faithful rnd" and "0 \<le> x" and "normal64 x"
  shows "x * (1 - 1 / 2 ^ 53) \<le> rnd x" and "rnd x \<le> x * (1 + 1 / 2 ^ 53)"
proof -
  have "\<bar>rnd x - x\<bar> \<le> \<bar>x\<bar> / 2 ^ 53" using assms(1,3) unfolding faithful_def by blast
  then have "\<bar>rnd x - x\<bar> \<le> x / 2 ^ 53" using assms(2) by simp
  then have "x - x / 2 ^ 53 \<le> rnd x" "rnd x \<le> x + x / 2 ^ 53" by linarith+
  then show "x * (1 - 1 / 2 ^ 53) \<le> rnd x" and "rnd x \<le> x * (1 + 1 / 2 ^ 53)"
    by (simp_all add: algebra_simps)
qed

text \<open>The step \<^verbatim>\<open>1.0 / (nIntKnots - 1)\<close> for fewer than \<open>2 ^ 31\<close> knots.\<close>

lemma faithful_step:
  assumes "faithful rnd" and "0 < m" and "m < 2 ^ 31"
  shows "(1 / real m) * (1 - 1 / 2 ^ 53) \<le> rnd (1 / real m)"
    and "rnd (1 / real m) \<le> (1 / real m) * (1 + 1 / 2 ^ 53)"
    and "1 / 2 ^ 32 \<le> rnd (1 / real m)"
    and "rnd (1 / real m) \<le> 2"
proof -
  have m: "1 \<le> real m" "real m \<le> 2 ^ 31" using assms(2,3) by simp_all
  have lo: "1 / 2 ^ 31 \<le> 1 / real m" using m by (intro divide_left_mono) simp_all
  have hi: "1 / real m \<le> 1" using m by simp
  have n: "normal64 (1 / real m)" using lo hi by (intro normal64_window) simp_all
  show b1: "(1 / real m) * (1 - 1 / 2 ^ 53) \<le> rnd (1 / real m)"
    using assms(1) n by (intro faithful_bounds(1)) simp_all
  show b2: "rnd (1 / real m) \<le> (1 / real m) * (1 + 1 / 2 ^ 53)"
    using assms(1) n by (intro faithful_bounds(2)) simp_all
  have "(1 / 2 ^ 31) * (1 - 1 / 2 ^ 53) \<le> (1 / real m) * (1 - 1 / 2 ^ 53)"
    using lo by (intro mult_right_mono) simp_all
  moreover have "(1 :: real) / 2 ^ 32 \<le> (1 / 2 ^ 31) * (1 - 1 / 2 ^ 53)" by simp
  ultimately show "1 / 2 ^ 32 \<le> rnd (1 / real m)" using b1 by linarith
  have "(1 / real m) * (1 + 1 / 2 ^ 53) \<le> 1 * (1 + 1 / 2 ^ 53)"
    using hi by (intro mult_right_mono) simp_all
  then show "rnd (1 / real m) \<le> 2" using b2 by simp
qed

lemma product_normal:
  assumes "1 / 2 ^ 32 \<le> s" and "s \<le> 2" and "0 < i" and "i < 2 ^ 31"
  shows "normal64 (real i * s)"
proof -
  have i: "1 \<le> real i" "real i \<le> 2 ^ 31" using assms(3,4) by simp_all
  have s: "0 \<le> s" using assms(1) by (meson dual_order.trans zero_le_divide_1_iff zero_le_numeral zero_le_power)
  have "1 * s \<le> real i * s" using i s by (intro mult_right_mono) simp_all
  then have "s \<le> real i * s" by simp
  with assms(1) have lo: "1 / 2 ^ 32 \<le> real i * s" by (rule order_trans)
  have "real i * s \<le> 2 ^ 31 * 2" using i assms(2) s by (intro mult_mono) simp_all
  also have "(2 :: real) ^ 31 * 2 = 2 ^ 32" by simp
  finally have hi: "real i * s \<le> 2 ^ 32" .
  show ?thesis using lo hi by (rule normal64_window)
qed

lemma interior_strict:
  assumes f: "faithful rnd" and m: "0 < m" "m < 2 ^ 31" and ij: "i < j" and j: "j < 2 ^ 31"
  shows "rnd (real i * rnd (1 / real m)) < rnd (real j * rnd (1 / real m))"
proof -
  define s where "s = rnd (1 / real m)"
  define e :: real where "e = 1 / 2 ^ 53"
  have sb: "1 / 2 ^ 32 \<le> s" "s \<le> 2" unfolding s_def using f m by (rule faithful_step)+
  have s: "0 < s" using sb(1) by (smt (verit) divide_pos_pos zero_less_numeral zero_less_power)
  have jn: "normal64 (real j * s)" using sb ij j by (intro product_normal) simp_all
  have lo: "real j * s * (1 - e) \<le> rnd (real j * s)"
    unfolding e_def using f s jn by (intro faithful_bounds(1)) simp_all
  have e: "0 < 1 - e" unfolding e_def by simp
  have jpos: "0 < real j * s * (1 - e)" using ij s e by simp
  show ?thesis
  proof (cases "i = 0")
    case True
    then show ?thesis using lo jpos faithful_zero [OF f] unfolding s_def by simp
  next
    case False
    then have "normal64 (real i * s)" using sb ij j by (intro product_normal) simp_all
    then have up: "rnd (real i * s) \<le> real i * s * (1 + e)"
      unfolding e_def using f s by (intro faithful_bounds(2)) simp_all
    have "real i < 2 ^ 31" using ij j by simp
    then have a1: "(2 * real i + 1) * e < 1" unfolding e_def by simp
    have a2: "real i + 1 \<le> real j" using ij by simp
    have "real i * (1 + e) < (real i + 1) * (1 - e)" using a1 by (simp add: algebra_simps)
    also have "\<dots> \<le> real j * (1 - e)" using a2 e by (intro mult_right_mono) simp_all
    finally have "real i * (1 + e) * s < real j * (1 - e) * s"
      using s by (rule mult_strict_right_mono)
    then have "real i * s * (1 + e) < real j * s * (1 - e)"
      by (simp add: mult.commute mult.left_commute)
    with up lo show ?thesis unfolding s_def by linarith
  qed
qed

subsection \<open>The binary64 rounding is faithful\<close>

lemma ulp_search_up:
  "0 < u \<Longrightarrow> 2 ^ 52 * u \<le> x \<Longrightarrow> x < 2 ^ 53 * u * 2 ^ k \<Longrightarrow> k \<le> fuel \<Longrightarrow>
   0 < ulp_search fuel x u \<and> 2 ^ 52 * ulp_search fuel x u \<le> x \<and> x < 2 ^ 53 * ulp_search fuel x u"
proof (induction k arbitrary: u fuel)
  case 0
  then have "\<not> 2 ^ 53 * u \<le> x" "\<not> x < 2 ^ 52 * u" by simp_all
  then have "ulp_search fuel x u = u" by (subst ulp_search.simps) simp
  then show ?case using 0 by simp
next
  case (Suc k)
  show ?case
  proof (cases "2 ^ 53 * u \<le> x")
    case False
    moreover have "\<not> x < 2 ^ 52 * u" using Suc.prems by simp
    ultimately have "ulp_search fuel x u = u" by (subst ulp_search.simps) simp
    then show ?thesis using Suc.prems False by simp
  next
    case True
    have fuel: "fuel \<noteq> 0" "k \<le> fuel - 1" using Suc.prems by simp_all
    have step: "ulp_search fuel x u = ulp_search (fuel - 1) x (2 * u)"
      using True fuel by (subst ulp_search.simps) simp
    have "0 < 2 * u" "2 ^ 52 * (2 * u) \<le> x" "x < 2 ^ 53 * (2 * u) * 2 ^ k"
      using Suc.prems True by (simp_all add: mult.assoc mult.left_commute)
    from Suc.IH [OF this fuel(2)] show ?thesis unfolding step .
  qed
qed

lemma ulp_search_down:
  "0 < u \<Longrightarrow> x < 2 ^ 53 * u \<Longrightarrow> 2 ^ 52 * u \<le> x * 2 ^ k \<Longrightarrow> k \<le> fuel \<Longrightarrow>
   0 < ulp_search fuel x u \<and> 2 ^ 52 * ulp_search fuel x u \<le> x \<and> x < 2 ^ 53 * ulp_search fuel x u"
proof (induction k arbitrary: u fuel)
  case 0
  then have "\<not> 2 ^ 53 * u \<le> x" "\<not> x < 2 ^ 52 * u" by simp_all
  then have "ulp_search fuel x u = u" by (subst ulp_search.simps) simp
  then show ?case using 0 by simp
next
  case (Suc k)
  show ?case
  proof (cases "x < 2 ^ 52 * u")
    case False
    moreover have "\<not> 2 ^ 53 * u \<le> x" using Suc.prems by simp
    ultimately have "ulp_search fuel x u = u" by (subst ulp_search.simps) simp
    then show ?thesis using Suc.prems False by simp
  next
    case True
    have fuel: "fuel \<noteq> 0" "k \<le> fuel - 1" using Suc.prems by simp_all
    have n: "\<not> 2 ^ 53 * u \<le> x" using Suc.prems by simp
    have step: "ulp_search fuel x u = ulp_search (fuel - 1) x (u / 2)"
      using True n fuel by (subst ulp_search.simps) simp
    have "0 < u / 2" "x < 2 ^ 53 * (u / 2)" "2 ^ 52 * (u / 2) \<le> x * 2 ^ k"
      using Suc.prems True by simp_all
    from Suc.IH [OF this fuel(2)] show ?thesis unfolding step .
  qed
qed

lemma ulp_search_normal:
  assumes "1 / 2 ^ 1022 \<le> x" and "x \<le> 2 ^ 1023"
  shows "0 < ulp_search 2200 x 1 \<and> 2 ^ 52 * ulp_search 2200 x 1 \<le> x
         \<and> x < 2 ^ 53 * ulp_search 2200 x 1"
proof (cases "2 ^ 52 \<le> x")
  case True
  have "x < 2 ^ 53 * 1 * 2 ^ 971"
  proof -
    have "(2 :: real) ^ 1023 < 2 ^ 53 * 1 * 2 ^ 971" by simp
    with assms(2) show ?thesis by (rule le_less_trans)
  qed
  moreover have "(0 :: real) < 1" "2 ^ 52 * 1 \<le> x" "(971 :: nat) \<le> 2200"
    using True by simp_all
  ultimately show ?thesis using ulp_search_up [of 1 x 971 2200] by blast
next
  case False
  have "2 ^ 52 * 1 \<le> x * 2 ^ 1074"
  proof -
    have "(2 :: real) ^ 52 * 1 = (1 / 2 ^ 1022) * 2 ^ 1074" by simp
    also have "\<dots> \<le> x * 2 ^ 1074" using assms(1) by (intro mult_right_mono) simp_all
    finally show ?thesis .
  qed
  moreover have "x < 2 ^ 53 * 1"
  proof -
    have "x < 2 ^ 52" using False by simp
    also have "(2 :: real) ^ 52 < 2 ^ 53 * 1" by simp
    finally show ?thesis .
  qed
  moreover have "(0 :: real) < 1" "(1074 :: nat) \<le> 2200" by simp_all
  ultimately show ?thesis using ulp_search_down [of 1 x 1074 2200] by blast
qed

lemma round_half_even_error: "\<bar>real_of_int (round_half_even y) - y\<bar> \<le> 1 / 2"
proof -
  have "0 \<le> y - of_int \<lfloor>y\<rfloor>" "y - of_int \<lfloor>y\<rfloor> < 1" by linarith+
  then show ?thesis
    by (auto simp: round_half_even_def Let_def)
qed

lemma rnd64_faithful: "faithful rnd64"
  unfolding faithful_def
proof (intro conjI allI impI)
  show "rnd64 0 = 0" by (simp add: rnd64_def)
next
  fix x :: real
  assume n: "normal64 x"
  define r where "r = ulp_search 2200 \<bar>x\<bar> 1"
  define y where "y = \<bar>x\<bar> / r"
  have b: "0 < r" "2 ^ 52 * r \<le> \<bar>x\<bar>" "\<bar>x\<bar> < 2 ^ 53 * r"
    using ulp_search_normal [of "\<bar>x\<bar>"] n unfolding normal64_def r_def by blast+
  have x0: "x \<noteq> 0" using b(1,2) by (smt (verit) mult_pos_pos zero_less_power abs_zero)
  have val: "rnd64 x = sgn x * real_of_int (round_half_even y) * r"
    using x0 by (simp add: rnd64_def Let_def r_def y_def)
  have xs: "x = sgn x * (y * r)"
    using b(1) by (simp add: y_def mult_sgn_abs)
  have "rnd64 x - x = sgn x * ((real_of_int (round_half_even y) - y) * r)"
    by (subst (2) xs) (simp add: val algebra_simps)
  then have "\<bar>rnd64 x - x\<bar> = \<bar>real_of_int (round_half_even y) - y\<bar> * r"
    using x0 b(1) by (simp add: abs_mult abs_sgn_eq)
  also have "\<dots> \<le> (1 / 2) * r"
    using round_half_even_error [of y] b(1) by (intro mult_right_mono) simp_all
  also have "\<dots> \<le> \<bar>x\<bar> / 2 ^ 53"
    using b(2) by simp
  finally show "\<bar>rnd64 x - x\<bar> \<le> \<bar>x\<bar> / 2 ^ 53" .
qed

text \<open>
  The last interior knot for degree 1 and 50 control points: the quotient \<open>1 / 49\<close> is
  rounded down, and the product with 49 is the binary64 number just below 1.
\<close>

lemma step_49: "rnd64 (real 49 * rnd64 (1 / 49)) = 1 - 1 / 2 ^ 53"
  by (simp add: eval_rnd64)

text \<open>
  C5, as stated, fails in two places. (1) For every degree and every
  \<open>nCtrlPts \<ge> degree + 1\<close>: once \<open>nCtrlPts + degree + 1\<close> no longer fits the \<^verbatim>\<open>int\<close>
  \<^verbatim>\<open>nKnots\<close> the count is wrong. With degree 0 and \<open>2 ^ 32 + 1\<close> control points the low
  32 bits of \<open>nCtrlPts + degree + 1\<close> are 2, and the function returns the two knots 0 and 1
  instead of \<open>2 ^ 32 + 2\<close> knots. (2) Interior knots evenly spaced over \<open>[0, 1]\<close>: with
  degree 1 and 50 control points the function returns 52 knots, and the last of the 50
  interior knots, \<^verbatim>\<open>49 * step\<close> in \<^verbatim>\<open>double\<close>, is \<open>1 - 2 ^ -53\<close>, not \<open>49 / 49 = 1\<close>.
\<close>

theorem makeClampedUniformKnotVector_counterexample:
  "unat (0 :: 32 word) + 1 \<le> unat (4294967297 :: 64 word) \<and>
   unat (4294967297 :: 64 word) + unat (0 :: 32 word) + 1 = 4294967298 \<and>
   makeClampedUniformKnotVector rnd64 0 4294967297 [] = Inr (True, [0, 1]) \<and>
   unat (1 :: 32 word) + 1 \<le> unat (50 :: 64 word) \<and>
   unat (50 :: 64 word) + unat (1 :: 32 word) + 1 < 2 ^ 31 \<and>
   makeClampedUniformKnotVector rnd64 1 50 []
     = Inr (True, [0] @ map (\<lambda>j. rnd64 (real j * rnd64 (1 / 49))) [0..<50] @ [1]) \<and>
   ([0] @ map (\<lambda>j. rnd64 (real j * rnd64 (1 / 49))) [0..<50] @ [1]) ! 50 = 1 - 1 / 2 ^ 53 \<and>
   1 - 1 / 2 ^ 53 \<noteq> (49 / 49 :: real)"
proof -
  have a: "makeClampedUniformKnotVector rnd64 0 4294967297 [] = Inr (True, [0, 1])"
    by (simp add: makeClampedUniformKnotVector_def push_loop.simps interior_loop.simps
        eval_rnd64)
  have h1: "unat (1 :: 32 word) + 1 \<le> unat (50 :: 64 word)" by simp
  have h2: "unat (50 :: 64 word) + unat (1 :: 32 word) + 1 < 2 ^ 31" by simp
  have b: "makeClampedUniformKnotVector rnd64 1 50 []
      = Inr (True, [0] @ map (\<lambda>j. rnd64 (real j * rnd64 (1 / 49))) [0..<50] @ [1])"
    using makeClampedUniformKnotVector_value [OF h1 h2, of rnd64 "[]"] by simp
  have "([0] @ map (\<lambda>j. rnd64 (real j * rnd64 (1 / 49))) [0..<50] @ [1]) ! 50
      = map (\<lambda>j. rnd64 (real j * rnd64 (1 / 49))) [0..<50] ! 49"
    by (simp add: nth_append)
  also have "\<dots> = rnd64 (real ([0..<50] ! 49) * rnd64 (1 / 49))"
    by (rule nth_map) simp
  also have "[0..<50] ! 49 = (0 :: nat) + 49"
    by (rule nth_upt) simp
  finally have c: "([0] @ map (\<lambda>j. rnd64 (real j * rnd64 (1 / 49))) [0..<50] @ [1]) ! 50
      = 1 - 1 / 2 ^ 53"
    using step_49 by simp
  have d: "1 - 1 / 2 ^ 53 \<noteq> (49 / 49 :: real)" by simp
  have e: "unat (0 :: 32 word) + 1 \<le> unat (4294967297 :: 64 word)"
    "unat (4294967297 :: 64 word) + unat (0 :: 32 word) + 1 = 4294967298"
    by simp_all
  show ?thesis using e a h1 h2 b c d by blast
qed

text \<open>
  C5, amended: for every degree \<open>d\<close> and every \<open>nCtrlPts \<ge> d + 1\<close> with
  \<open>nCtrlPts + d + 1 < 2 ^ 31\<close> (the count fits the \<^verbatim>\<open>int\<close> \<^verbatim>\<open>nKnots\<close>), with \<^verbatim>\<open>step\<close> and the
  products \<^verbatim>\<open>i * step\<close> computed in \<^verbatim>\<open>double\<close> (each operation rounds a normal value with a
  relative error of at most \<open>2 ^ -53\<close> and rounds 0 to 0, as binary64 does),
  makeClampedUniformKnotVector returns true with exactly \<open>nCtrlPts + d + 1\<close> knots
  consisting of \<open>d\<close> copies of 0.0, then \<open>nIntKnots = nKnots - 2 * d\<close> interior knots, then
  \<open>d\<close> copies of 1.0; the first \<open>d\<close> knots equal 0.0, the last \<open>d\<close> knots equal 1.0, and the
  interior knots are strictly increasing.
\<close>

theorem makeClampedUniformKnotVector_shape:
  assumes "unat degree + 1 \<le> unat nCtrlPts"
    and "unat nCtrlPts + unat degree + 1 < 2 ^ 31"
    and "faithful rnd"
  shows "\<exists>interior.
           makeClampedUniformKnotVector rnd degree nCtrlPts knots
             = Inr (True, replicate (unat degree) 0 @ interior @ replicate (unat degree) 1) \<and>
           length interior = unat nCtrlPts + unat degree + 1 - 2 * unat degree \<and>
           length (replicate (unat degree) (0 :: real) @ interior @ replicate (unat degree) 1)
             = unat nCtrlPts + unat degree + 1 \<and>
           sorted_wrt (<) interior"
proof -
  define nI where "nI = unat nCtrlPts + 1 - unat degree"
  define m where "m = unat nCtrlPts - unat degree"
  define interior where "interior = map (\<lambda>j. rnd (real j * rnd (1 / real m))) [0..<nI]"
  have nm: "nI = m + 1" "0 < m" unfolding nI_def m_def using assms(1) by linarith+
  have nIlt: "nI < 2 ^ 31" unfolding nI_def using assms(2) by linarith
  have mlt: "m < 2 ^ 31" unfolding m_def using assms(2) by linarith
  have len: "length interior = nI" unfolding interior_def by simp
  have nth: "interior ! i = rnd (real i * rnd (1 / real m))" if "i < nI" for i
    unfolding interior_def using that by simp
  have run: "makeClampedUniformKnotVector rnd degree nCtrlPts knots
      = Inr (True, replicate (unat degree) 0 @ interior @ replicate (unat degree) 1)"
    unfolding interior_def nI_def m_def using assms(1,2) by (rule makeClampedUniformKnotVector_value)
  have l1: "length interior = unat nCtrlPts + unat degree + 1 - 2 * unat degree"
    unfolding len nI_def using assms(1) by linarith
  have l2: "length (replicate (unat degree) (0 :: real) @ interior @ replicate (unat degree) 1)
      = unat nCtrlPts + unat degree + 1"
    using len assms(1) unfolding nI_def by simp
  have "interior ! i < interior ! j" if "i < j" "j < nI" for i j
    using that nth nIlt interior_strict [OF assms(3) nm(2) mlt, of i j] by simp
  then have p4: "sorted_wrt (<) interior"
    using len by (simp add: sorted_wrt_iff_nth_less)
  show ?thesis using run l1 l2 p4 by blast
qed

theorem makeClampedUniformKnotVector_shape_witness:
  "unat (2 :: 32 word) + 1 \<le> unat (4 :: 64 word) \<and>
   unat (4 :: 64 word) + unat (2 :: 32 word) + 1 < 2 ^ 31 \<and>
   faithful rnd64 \<and>
   (\<exists>interior.
      makeClampedUniformKnotVector rnd64 2 4 [] = Inr (True, [0, 0] @ interior @ [1, 1]) \<and>
      length interior = 3 \<and> length ([0, 0 :: real] @ interior @ [1, 1]) = 7 \<and>
      sorted_wrt (<) interior)"
proof -
  have h1: "unat (2 :: 32 word) + 1 \<le> unat (4 :: 64 word)" by simp
  have h2: "unat (4 :: 64 word) + unat (2 :: 32 word) + 1 < 2 ^ 31" by simp
  have h3: "faithful rnd64" by (rule rnd64_faithful)
  have r: "replicate (unat (2 :: 32 word)) x = [x, x]" for x :: real
  proof -
    have "unat (2 :: 32 word) = Suc (Suc 0)" by simp
    then show ?thesis by (simp only: replicate.simps)
  qed
  from makeClampedUniformKnotVector_shape [OF h1 h2 h3, of "[]"] obtain interior where
    run: "makeClampedUniformKnotVector rnd64 2 4 []
          = Inr (True, replicate (unat (2 :: 32 word)) 0 @ interior
                       @ replicate (unat (2 :: 32 word)) 1)"
    and len: "length interior = unat (4 :: 64 word) + unat (2 :: 32 word) + 1
                                - 2 * unat (2 :: 32 word)"
    and srt: "sorted_wrt (<) interior"
    by blast
  have l3: "length interior = 3" using len by simp
  have "makeClampedUniformKnotVector rnd64 2 4 [] = Inr (True, [0, 0] @ interior @ [1, 1])"
    using run unfolding r .
  moreover have "length ([0, 0 :: real] @ interior @ [1, 1]) = 7" using l3 by simp
  ultimately show ?thesis using h1 h2 h3 l3 srt by blast
qed

subsection \<open>Too few control points (C6)\<close>

text \<open>
  C6, as stated, for every degree: it fails for \<open>degree = 2 ^ 32 - 1\<close>. The guard
  \<^verbatim>\<open>nCtrlPts < degree + 1\<close> computes \<open>degree + 1\<close> in \<^verbatim>\<open>unsigned int\<close>, where it wraps
  to 0, so no count of control points is rejected. With 2 control points
  makeUniformKnotVector returns true and replaces the caller's knot vector by \<open>[0, 1]\<close>.
\<close>

theorem builders_reject_counterexample:
  "unat (2 :: 64 word) < unat (4294967295 :: 32 word) + 1 \<and>
   makeUniformKnotVector rnd64 4294967295 2 [5] = Some (Inr (True, [0, 1]))"
  by (simp add: makeUniformKnotVector_def uniform_loop.simps eval_rnd64)

text \<open>
  C6, amended: for every degree \<open>d < 2 ^ 32 - 1\<close> and every \<open>nCtrlPts < d + 1\<close>, both
  makeUniformKnotVector and makeClampedUniformKnotVector return false and leave the
  caller's knot vector as it was.
\<close>

theorem builders_reject_few_control_points:
  assumes "unat nCtrlPts < unat degree + 1" and "unat degree + 1 < 2 ^ 32"
  shows "makeUniformKnotVector rnd degree nCtrlPts knots = Some (Inr (False, knots)) \<and>
         makeClampedUniformKnotVector rnd degree nCtrlPts knots = Inr (False, knots)"
proof -
  have "nCtrlPts < ucast (degree + 1)" using assms by (simp add: guard_iff)
  then show ?thesis
    by (simp add: makeUniformKnotVector_def makeClampedUniformKnotVector_def)
qed

theorem builders_reject_few_control_points_witness:
  "unat (1 :: 64 word) < unat (2 :: 32 word) + 1 \<and>
   unat (2 :: 32 word) + 1 < 2 ^ 32 \<and>
   makeUniformKnotVector rnd64 2 1 [7] = Some (Inr (False, [7])) \<and>
   makeClampedUniformKnotVector rnd64 2 1 [7] = Inr (False, [7])"
proof -
  have h1: "unat (1 :: 64 word) < unat (2 :: 32 word) + 1" by simp
  have h2: "unat (2 :: 32 word) + 1 < 2 ^ 32" by simp
  show ?thesis
    using h1 h2 builders_reject_few_control_points [OF h1 h2, of rnd64 "[7]"] by simp
qed

subsection \<open>The builders ignore the prior contents (C9)\<close>

text \<open>
  C9: on success the knot vector produced by makeUniformKnotVector and by
  makeClampedUniformKnotVector is a function of degree and nCtrlPts only (for a given
  arithmetic): two calls with the same degree and nCtrlPts but different prior contents
  of the container produce identical results.
\<close>

theorem builders_ignore_prior_contents:
  "(makeUniformKnotVector rnd degree nCtrlPts knots1 = Some (Inr (True, r))
      \<longrightarrow> makeUniformKnotVector rnd degree nCtrlPts knots2 = Some (Inr (True, r))) \<and>
   (makeClampedUniformKnotVector rnd degree nCtrlPts knots1 = Inr (True, r')
      \<longrightarrow> makeClampedUniformKnotVector rnd degree nCtrlPts knots2 = Inr (True, r'))"
  by (simp add: makeUniformKnotVector_def makeClampedUniformKnotVector_def)

theorem builders_ignore_prior_contents_witness:
  "makeUniformKnotVector rnd64 1 3 [5] = Some (Inr (True, [0, 1 / 4, 1 / 2, 3 / 4, 1])) \<and>
   makeUniformKnotVector rnd64 1 3 [] = Some (Inr (True, [0, 1 / 4, 1 / 2, 3 / 4, 1])) \<and>
   makeClampedUniformKnotVector rnd64 1 3 [5] = Inr (True, [0, 0, 1 / 2, 1, 1]) \<and>
   makeClampedUniformKnotVector rnd64 1 3 [] = Inr (True, [0, 0, 1 / 2, 1, 1])"
proof -
  have a: "makeUniformKnotVector rnd64 1 3 [5] = Some (Inr (True, [0, 1 / 4, 1 / 2, 3 / 4, 1]))"
    by (simp add: makeUniformKnotVector_def uniform_loop.simps eval_rnd64)
  have b: "makeClampedUniformKnotVector rnd64 1 3 [5] = Inr (True, [0, 0, 1 / 2, 1, 1])"
    by (simp add: makeClampedUniformKnotVector_def push_loop.simps interior_loop.simps eval_rnd64)
  show ?thesis
    using a b builders_ignore_prior_contents
      [of rnd64 1 3 "[5]" "[0, 1 / 4, 1 / 2, 3 / 4, 1]" "[]" "[0, 0, 1 / 2, 1, 1]"]
    by simp
qed

subsection \<open>Evaluation rules for the insertion functions\<close>

lemma tvecn_2: "tvecn 2 = [0, 0]"
  by (simp add: tvecn_def numeral_2_eq_2)

text \<open>
  Congruence rule for evaluation: the bound expression of a \<open>let\<close> is evaluated before
  its body.
\<close>

lemma Let_weak_cong: "a = b \<Longrightarrow> Let a t = Let b t"
  by simp

lemmas eval_insert = curveInsertKnot_def curve_loop.simps vget_def vget_int_def insert_at_def
  tvecn_2 blend_def smul_def vadd_def

lemmas eval_surface = surfaceInsertKnotU_def insert_rows.simps surface_rows.simps
  surface_row_loop.simps vget_def vget_int_def insert_at_def tvecn_2 blend_def smul_def vadd_def

lemmas eval_curve = curve_point_def basis.simps ratio_def tvecn_2 smul_def vadd_def

subsection \<open>The span on the inputs used below\<close>

text \<open>
  On each of the inputs below the rule of the span finder fixes the span uniquely, or
  (outside the domain) admits no span at all.
\<close>

lemma span_of_half: "findSpan_spec (1 / 2) 2 [0, 0, 0, 1 / 2, 1, 1, 1] sp \<longleftrightarrow> sp = 3"
proof
  assume a: "findSpan_spec (1 / 2) 2 [0, 0, 0, 1 / 2, 1, 1, 1] sp"
  then have "0 \<le> sp \<and> nat sp + 1 < length [0, 0, 0, 1 / 2, 1, 1, 1 :: real]"
    unfolding findSpan_spec_def by blast
  moreover have "length [0, 0, 0, 1 / 2, 1, 1, 1 :: real] = 7" by simp
  ultimately have "0 \<le> sp" "sp < 6" by linarith+
  then consider "sp = 0" | "sp = 1" | "sp = 2" | "sp = 3" | "sp = 4" | "sp = 5" by linarith
  then show "sp = 3" using a by cases (simp_all add: findSpan_spec_def)
next
  assume "sp = 3"
  then show "findSpan_spec (1 / 2) 2 [0, 0, 0, 1 / 2, 1, 1, 1] sp"
    by (simp add: findSpan_spec_def)
qed

lemma span_of_three_quarters:
  "findSpan_spec (3 / 4) 2 [0, 0, 0, 1 / 2, 1, 1, 1] sp \<longleftrightarrow> sp = 3"
proof
  assume a: "findSpan_spec (3 / 4) 2 [0, 0, 0, 1 / 2, 1, 1, 1] sp"
  then have "0 \<le> sp \<and> nat sp + 1 < length [0, 0, 0, 1 / 2, 1, 1, 1 :: real]"
    unfolding findSpan_spec_def by blast
  moreover have "length [0, 0, 0, 1 / 2, 1, 1, 1 :: real] = 7" by simp
  ultimately have "0 \<le> sp" "sp < 6" by linarith+
  then consider "sp = 0" | "sp = 1" | "sp = 2" | "sp = 3" | "sp = 4" | "sp = 5" by linarith
  then show "sp = 3" using a by cases (simp_all add: findSpan_spec_def)
next
  assume "sp = 3"
  then show "findSpan_spec (3 / 4) 2 [0, 0, 0, 1 / 2, 1, 1, 1] sp"
    by (simp add: findSpan_spec_def)
qed

lemma no_span_outside: "\<not> findSpan_spec 2 2 [0, 0, 0, 1 / 2, 1, 1, 1] sp"
proof
  assume a: "findSpan_spec 2 2 [0, 0, 0, 1 / 2, 1, 1, 1] sp"
  then have "0 \<le> sp \<and> nat sp + 1 < length [0, 0, 0, 1 / 2, 1, 1, 1 :: real]"
    unfolding findSpan_spec_def by blast
  moreover have "length [0, 0, 0, 1 / 2, 1, 1, 1 :: real] = 7" by simp
  ultimately have "0 \<le> sp" "sp < 6" by linarith+
  then consider "sp = 0" | "sp = 1" | "sp = 2" | "sp = 3" | "sp = 4" | "sp = 5" by linarith
  then show False using a by cases (simp_all add: findSpan_spec_def)
qed

lemma span_surface: "findSpan_spec 3 1 [0, 0, 1, 2, 4, 4] sp \<longleftrightarrow> sp = 3"
proof
  assume a: "findSpan_spec 3 1 [0, 0, 1, 2, 4, 4] sp"
  then have "0 \<le> sp \<and> nat sp + 1 < length [0, 0, 1, 2, 4, 4 :: real]"
    unfolding findSpan_spec_def by blast
  moreover have "length [0, 0, 1, 2, 4, 4 :: real] = 6" by simp
  ultimately have "0 \<le> sp" "sp < 5" by linarith+
  then consider "sp = 0" | "sp = 1" | "sp = 2" | "sp = 3" | "sp = 4" by linarith
  then show "sp = 3" using a by cases (simp_all add: findSpan_spec_def)
next
  assume "sp = 3"
  then show "findSpan_spec 3 1 [0, 0, 1, 2, 4, 4] sp"
    by (simp add: findSpan_spec_def)
qed

subsection \<open>curveInsertKnot changes the curve (C1)\<close>

text \<open>
  C1 (knot insertion is shape-preserving): the code does not preserve the shape. The
  input is the scenario of the specification: degree 2, control points (0,0), (1,2),
  (3,3), (4,0), knot vector \<open>[0, 0, 0, 0.5, 1, 1, 1]\<close>, inserted knot \<open>u = 0.5\<close> (multiplicity
  1, below the degree), span 3, \<^verbatim>\<open>T = double\<close>. The call returns the control points (0,0),
  (1,2), (3,3), (3,3), (4,0). Before the call the curve passes through (1, 1.625) at
  parameter 0.25, afterwards through (1.25, 1.75). The loop reads the knot vector after
  the insertion (so \<open>knots[i + deg]\<close> is the new knot for the first \<open>i\<close>) and blends the
  placeholder \<^verbatim>\<open>tvecn(0.0)\<close> at index span. Boehm's algorithm gives (2, 2.5) for the third
  control point, and that curve does pass through (1, 1.625).
\<close>

theorem curveInsertKnot_changes_shape:
  "(\<forall>sp. findSpan_spec (1 / 2) 2 [0, 0, 0, 1 / 2, 1, 1, 1] sp \<longleftrightarrow> sp = 3) \<and>
   curveInsertKnot rnd64 2 3 (1 / 2) 2 [0, 0, 0, 1 / 2, 1, 1, 1] [[0, 0], [1, 2], [3, 3], [4, 0]]
     = Inr ([0, 0, 0, 1 / 2, 1 / 2, 1, 1, 1], [[0, 0], [1, 2], [3, 3], [3, 3], [4, 0]]) \<and>
   curve_point 2 2 [0, 0, 0, 1 / 2, 1, 1, 1] [[0, 0], [1, 2], [3, 3], [4, 0]] (1 / 4)
     = [1, 13 / 8] \<and>
   curve_point 2 2 [0, 0, 0, 1 / 2, 1 / 2, 1, 1, 1] [[0, 0], [1, 2], [3, 3], [3, 3], [4, 0]] (1 / 4)
     = [5 / 4, 7 / 4] \<and>
   curve_point 2 2 [0, 0, 0, 1 / 2, 1 / 2, 1, 1, 1] [[0, 0], [1, 2], [2, 5 / 2], [3, 3], [4, 0]] (1 / 4)
     = [1, 13 / 8]"
proof -
  have "\<forall>sp. findSpan_spec (1 / 2) 2 [0, 0, 0, 1 / 2, 1, 1, 1] sp \<longleftrightarrow> sp = 3"
    using span_of_half by blast
  moreover have "curveInsertKnot rnd64 2 3 (1 / 2) 2 [0, 0, 0, 1 / 2, 1, 1, 1]
      [[0, 0], [1, 2], [3, 3], [4, 0]]
      = Inr ([0, 0, 0, 1 / 2, 1 / 2, 1, 1, 1], [[0, 0], [1, 2], [3, 3], [3, 3], [4, 0]])"
    by (simp add: eval_insert eval_rnd64 cong: sum.case_cong_weak Let_weak_cong)
  moreover have "curve_point 2 2 [0, 0, 0, 1 / 2, 1, 1, 1] [[0, 0], [1, 2], [3, 3], [4, 0]] (1 / 4)
      = [1, 13 / 8]"
    by (simp add: eval_curve)
  moreover have "curve_point 2 2 [0, 0, 0, 1 / 2, 1 / 2, 1, 1, 1]
      [[0, 0], [1, 2], [3, 3], [3, 3], [4, 0]] (1 / 4) = [5 / 4, 7 / 4]"
    by (simp add: eval_curve)
  moreover have "curve_point 2 2 [0, 0, 0, 1 / 2, 1 / 2, 1, 1, 1]
      [[0, 0], [1, 2], [2, 5 / 2], [3, 3], [4, 0]] (1 / 4) = [1, 13 / 8]"
    by (simp add: eval_curve)
  ultimately show ?thesis by blast
qed

subsection \<open>Where curveInsertKnot puts the knot (C2)\<close>

lemma curve_loop_length:
  "curve_loop rnd u deg knots sp i cp = Inr cp' \<Longrightarrow> length cp' = length cp"
proof (induction rnd u deg knots sp i cp rule: curve_loop.induct)
  case (1 rnd u deg knots sp i cp)
  show ?case
  proof (cases "i \<le> sp")
    case False
    then show ?thesis using "1.prems" by (subst (asm) curve_loop.simps) simp
  next
    case True
    from "1.prems" show ?thesis
      apply (subst (asm) curve_loop.simps)
      apply (simp add: True Let_def split: sum.splits if_splits)
      apply (drule "1.IH" [OF True, rotated -1])
      apply simp_all
      done
  qed
qed

lemma curveInsertKnot_result:
  assumes "curveInsertKnot rnd n sp u deg knots cp = Inr (knots', cp')"
  shows "0 \<le> sp" and "nat sp \<le> length knots" and "knots' = insert_at (nat sp) u knots"
    and "length knots' = length knots + 1" and "length cp' = length cp + 1"
proof -
  from assms have r: "0 \<le> sp \<and> nat sp \<le> length knots \<and> nat sp \<le> length cp \<and>
      knots' = insert_at (nat sp) u knots \<and>
      curve_loop rnd u deg (insert_at (nat sp) u knots) sp
        (sint (word_of_int sp - deg + 1 :: 32 word)) (insert_at (nat sp) (tvecn n) cp) = Inr cp'"
    by (auto simp: curveInsertKnot_def Let_def split: if_splits sum.splits)
  then show "0 \<le> sp" "nat sp \<le> length knots" "knots' = insert_at (nat sp) u knots"
    by blast+
  then show "length knots' = length knots + 1" by (simp add: insert_at_def)
  have "length cp' = length (insert_at (nat sp) (tvecn n) cp)"
    using r curve_loop_length by blast
  then show "length cp' = length cp + 1" using r by (simp add: insert_at_def)
qed

lemma isKnotVectorMonotonic_sorted: "isKnotVectorMonotonic knots \<longleftrightarrow> sorted knots"
proof (induction knots rule: isKnotVectorMonotonic.induct)
  case (3 x y ys)
  then show ?case by (simp only: isKnotVectorMonotonic.simps sorted2 not_less)
qed simp_all

text \<open>
  C2 (the new knot goes immediately after index span and the knot vector stays
  non-decreasing): the code places \<open>u\<close> at index span, before the old \<open>knots[span]\<close>. For
  the curve of the specification's scenario and \<open>u = 0.75\<close> (span 3, since
  \<open>0.5 \<le> 0.75 < 1\<close>) the knot vector becomes \<open>[0, 0, 0, 0.75, 0.5, 1, 1, 1]\<close>, which is not
  monotonic. The comment in the source asks for the position "between span and
  (span + 1)". Both containers do grow by one element.
\<close>

theorem curveInsertKnot_breaks_monotonicity:
  "(\<forall>sp. findSpan_spec (3 / 4) 2 [0, 0, 0, 1 / 2, 1, 1, 1] sp \<longleftrightarrow> sp = 3) \<and>
   isKnotVectorMonotonic [0, 0, 0, 1 / 2, 1, 1, 1] \<and>
   curveInsertKnot rnd64 2 3 (3 / 4) 2 [0, 0, 0, 1 / 2, 1, 1, 1] [[0, 0], [1, 2], [3, 3], [4, 0]]
     = Inr ([0, 0, 0, 3 / 4, 1 / 2, 1, 1, 1], [[0, 0], [1, 2], [4, 7 / 2], [4, 7 / 2], [4, 0]]) \<and>
   \<not> isKnotVectorMonotonic [0, 0, 0, 3 / 4, 1 / 2, 1, 1, 1]"
proof -
  have "\<forall>sp. findSpan_spec (3 / 4) 2 [0, 0, 0, 1 / 2, 1, 1, 1] sp \<longleftrightarrow> sp = 3"
    using span_of_three_quarters by blast
  moreover have "curveInsertKnot rnd64 2 3 (3 / 4) 2 [0, 0, 0, 1 / 2, 1, 1, 1]
      [[0, 0], [1, 2], [3, 3], [4, 0]]
      = Inr ([0, 0, 0, 3 / 4, 1 / 2, 1, 1, 1], [[0, 0], [1, 2], [4, 7 / 2], [4, 7 / 2], [4, 0]])"
    by (simp add: eval_insert eval_rnd64 cong: sum.case_cong_weak Let_weak_cong)
  ultimately show ?thesis by simp
qed

subsection \<open>A parameter outside the domain (C3)\<close>

lemma insert_outside_domain:
  "curveInsertKnot rnd64 2 3 2 2 [0, 0, 0, 1 / 2, 1, 1, 1] [[0, 0], [1, 2], [3, 3], [4, 0]]
   = Inr ([0, 0, 0, 2, 1 / 2, 1, 1, 1], [[0, 0], [1, 2], [9, 6], [9, 6], [4, 0]])"
  by (simp add: eval_insert eval_rnd64 cong: sum.case_cong_weak Let_weak_cong)

text \<open>
  C3 (for \<open>u\<close> outside \<open>[knots.front(), knots.back()]\<close> the insertion fails with OutOfDomain
  and leaves both containers unchanged): curveInsertKnot has the return type \<^verbatim>\<open>void\<close>,
  no check of \<open>u\<close> and no error path. For the curve of the specification's scenario and
  \<open>u = 2\<close>, outside \<open>[0, 1]\<close>, the rule of the span finder admits no span; a span finder
  that returns the last span 3 leads to a call that returns with 8 knots and 5 control
  points; and for no value that the span finder may return are the two containers left
  as they were.
\<close>

theorem curveInsertKnot_OutOfDomain_counterexample:
  "last [0, 0, 0, 1 / 2, 1, 1, 1 :: real] < 2 \<and>
   \<not> (\<exists>sp. findSpan_spec 2 2 [0, 0, 0, 1 / 2, 1, 1, 1] sp) \<and>
   curveInsertKnot rnd64 2 3 2 2 [0, 0, 0, 1 / 2, 1, 1, 1] [[0, 0], [1, 2], [3, 3], [4, 0]]
     = Inr ([0, 0, 0, 2, 1 / 2, 1, 1, 1], [[0, 0], [1, 2], [9, 6], [9, 6], [4, 0]]) \<and>
   \<not> (\<exists>sp. curveInsertKnot rnd64 2 sp 2 2 [0, 0, 0, 1 / 2, 1, 1, 1]
                [[0, 0], [1, 2], [3, 3], [4, 0]]
              = Inr ([0, 0, 0, 1 / 2, 1, 1, 1], [[0, 0], [1, 2], [3, 3], [4, 0]]))"
proof -
  have "\<not> (\<exists>sp. curveInsertKnot rnd64 2 sp 2 2 [0, 0, 0, 1 / 2, 1, 1, 1]
                [[0, 0], [1, 2], [3, 3], [4, 0]]
              = Inr ([0, 0, 0, 1 / 2, 1, 1, 1], [[0, 0], [1, 2], [3, 3], [4, 0]]))"
  proof
    assume "\<exists>sp. curveInsertKnot rnd64 2 sp 2 2 [0, 0, 0, 1 / 2, 1, 1, 1]
                [[0, 0], [1, 2], [3, 3], [4, 0]]
              = Inr ([0, 0, 0, 1 / 2, 1, 1, 1], [[0, 0], [1, 2], [3, 3], [4, 0]])"
    then obtain sp where "curveInsertKnot rnd64 2 sp 2 2 [0, 0, 0, 1 / 2, 1, 1, 1]
                [[0, 0], [1, 2], [3, 3], [4, 0]]
              = Inr ([0, 0, 0, 1 / 2, 1, 1, 1], [[0, 0], [1, 2], [3, 3], [4, 0]])" ..
    then have "length [0, 0, 0, 1 / 2, 1, 1, 1 :: real]
        = length [0, 0, 0, 1 / 2, 1, 1, 1 :: real] + 1"
      by (rule curveInsertKnot_result(4))
    then show False by simp
  qed
  then show ?thesis using insert_outside_domain no_span_outside by simp
qed

text \<open>
  C3, amended: curveInsertKnot checks no domain and has no error path: its return type is
  \<^verbatim>\<open>void\<close> and it reports no OutOfDomain or other error. For every curve, every parameter
  \<open>u\<close> (inside or outside \<open>[knots.front(), knots.back()]\<close>) and every index returned by the
  span finder, no call returns with both containers as they were, and a call that
  completes has made the knot vector and the control-point sequence longer by exactly
  one element each.
\<close>

theorem curveInsertKnot_always_mutates:
  "curveInsertKnot rnd n sp u deg knots cp \<noteq> Inr (knots, cp) \<and>
   (\<forall>knots' cp'. curveInsertKnot rnd n sp u deg knots cp = Inr (knots', cp') \<longrightarrow>
      length knots' = length knots + 1 \<and> length cp' = length cp + 1)"
proof (intro conjI allI impI)
  show "curveInsertKnot rnd n sp u deg knots cp \<noteq> Inr (knots, cp)"
  proof
    assume "curveInsertKnot rnd n sp u deg knots cp = Inr (knots, cp)"
    then have "length knots = length knots + 1" by (rule curveInsertKnot_result(4))
    then show False by simp
  qed
next
  fix knots' cp'
  assume r: "curveInsertKnot rnd n sp u deg knots cp = Inr (knots', cp')"
  show "length knots' = length knots + 1" using r by (rule curveInsertKnot_result(4))
  show "length cp' = length cp + 1" using r by (rule curveInsertKnot_result(5))
qed

theorem curveInsertKnot_always_mutates_witness:
  "last [0, 0, 0, 1 / 2, 1, 1, 1 :: real] < 2 \<and>
   curveInsertKnot rnd64 2 3 2 2 [0, 0, 0, 1 / 2, 1, 1, 1] [[0, 0], [1, 2], [3, 3], [4, 0]]
     = Inr ([0, 0, 0, 2, 1 / 2, 1, 1, 1], [[0, 0], [1, 2], [9, 6], [9, 6], [4, 0]]) \<and>
   curveInsertKnot rnd64 2 3 2 2 [0, 0, 0, 1 / 2, 1, 1, 1] [[0, 0], [1, 2], [3, 3], [4, 0]]
     \<noteq> Inr ([0, 0, 0, 1 / 2, 1, 1, 1], [[0, 0], [1, 2], [3, 3], [4, 0]]) \<and>
   length [0, 0, 0, 2, 1 / 2, 1, 1, 1 :: real] = length [0, 0, 0, 1 / 2, 1, 1, 1 :: real] + 1 \<and>
   length [[0, 0], [1, 2], [9, 6], [9, 6], [4, 0 :: real]]
     = length [[0, 0], [1, 2], [3, 3], [4, 0 :: real]] + 1"
proof -
  have "last [0, 0, 0, 1 / 2, 1, 1, 1 :: real] < 2" by simp
  then show ?thesis
    using insert_outside_domain
      curveInsertKnot_always_mutates [of rnd64 2 3 2 2 "[0, 0, 0, 1 / 2, 1, 1, 1]"
        "[[0, 0], [1, 2], [3, 3], [4, 0]]"]
    by blast
qed

subsection \<open>surfaceInsertKnotU (C8)\<close>

text \<open>
  C8 (every row is recomputed with the blend recurrence of the curve algorithm,
  \<open>a = (u - knots[j]) / (knots[j + deg] - knots[j])\<close>, and the coefficient never depends on
  the row index): the code computes \<^verbatim>\<open>a = (u - knots[i]) / (knots[i + deg] - knots[j])\<close>
  with the row index \<open>i\<close>. With degree 1, knot vector \<open>[0, 0, 1, 2, 4, 4]\<close>, \<open>u = 3\<close>
  (span 3) and a grid of two equal rows (0,0), (1,2), (3,3), (4,0), the knot vector is
  updated once and every row receives one point, but the new point is (6, 6) in row 0
  and (7.5, 7.5) in row 1, while curveInsertKnot on the same row gives (3, 3).
\<close>

theorem surfaceInsertKnotU_rows_differ:
  "(\<forall>sp. findSpan_spec 3 1 [0, 0, 1, 2, 4, 4] sp \<longleftrightarrow> sp = 3) \<and>
   surfaceInsertKnotU rnd64 2 3 3 1 [0, 0, 1, 2, 4, 4]
       [[[0, 0], [1, 2], [3, 3], [4, 0]], [[0, 0], [1, 2], [3, 3], [4, 0]]]
     = Inr ([0, 0, 1, 3, 2, 4, 4],
            [[[0, 0], [1, 2], [3, 3], [6, 6], [4, 0]],
             [[0, 0], [1, 2], [3, 3], [15 / 2, 15 / 2], [4, 0]]]) \<and>
   curveInsertKnot rnd64 2 3 3 1 [0, 0, 1, 2, 4, 4] [[0, 0], [1, 2], [3, 3], [4, 0]]
     = Inr ([0, 0, 1, 3, 2, 4, 4], [[0, 0], [1, 2], [3, 3], [3, 3], [4, 0]])"
proof -
  have "\<forall>sp. findSpan_spec 3 1 [0, 0, 1, 2, 4, 4] sp \<longleftrightarrow> sp = 3"
    using span_surface by blast
  moreover have "surfaceInsertKnotU rnd64 2 3 3 1 [0, 0, 1, 2, 4, 4]
       [[[0, 0], [1, 2], [3, 3], [4, 0]], [[0, 0], [1, 2], [3, 3], [4, 0]]]
     = Inr ([0, 0, 1, 3, 2, 4, 4],
            [[[0, 0], [1, 2], [3, 3], [6, 6], [4, 0]],
             [[0, 0], [1, 2], [3, 3], [15 / 2, 15 / 2], [4, 0]]])"
    by (simp add: eval_surface eval_rnd64 cong: sum.case_cong_weak Let_weak_cong)
  moreover have "curveInsertKnot rnd64 2 3 3 1 [0, 0, 1, 2, 4, 4] [[0, 0], [1, 2], [3, 3], [4, 0]]
     = Inr ([0, 0, 1, 3, 2, 4, 4], [[0, 0], [1, 2], [3, 3], [3, 3], [4, 0]])"
    by (simp add: eval_insert eval_rnd64 cong: sum.case_cong_weak Let_weak_cong)
  ultimately show ?thesis by blast
qed

end
